theory Spec2Isabelle
  imports Main "HOL-Library.Word"
begin

unbundle bit_operations_syntax

section \<open>Machine integers and host memory\<close>

text \<open>
  The fixed-width integer types of \<^verbatim>\<open>namespace mp\<close> (mp.hpp, lines 17-50). The signed
  types share the representation of the unsigned ones; \<open>sint\<close> reads a word as two's
  complement.
\<close>

type_synonym mp_u8 = "8 word"
type_synonym mp_u16 = "16 word"
type_synonym mp_u32 = "32 word"
type_synonym mp_u64 = "64 word"
type_synonym mp_i8 = "8 word"

text \<open>
  A plain-old-data value lies in memory in host byte order. The library targets MSVC on
  x86 (README.md, tests.cpp), so the host is little-endian: \<open>to_le n w\<close> are the \<open>n\<close>
  bytes of \<open>w\<close> as \<^verbatim>\<open>reinterpret_cast< mp_u8* >( &pod )\<close> sees them, and \<open>of_le\<close> reads
  such bytes back as a value.
\<close>

fun to_le :: "nat \<Rightarrow> 'a::len word \<Rightarrow> mp_u8 list" where
  "to_le 0 w = []"
| "to_le (Suc n) w = ucast w # to_le n (drop_bit 8 w)"

fun of_le :: "mp_u8 list \<Rightarrow> 'a::len word" where
  "of_le [] = 0"
| "of_le (b # bs) = ucast b OR push_bit 8 (of_le bs)"

text \<open>
  Modelled from the spec: the byte-swap intrinsics \<^verbatim>\<open>bswap_intrin16/32/64\<close> are macros
  over compiler builtins (mp.hpp, lines 3-15) whose bodies are not part of the
  repository. The spec describes them as a pure function that reverses the order of the
  bytes of a fixed-width integer.
\<close>

definition bswap_intrin16 :: "mp_u16 \<Rightarrow> mp_u16" where
  "bswap_intrin16 v = of_le (rev (to_le 2 v))"

definition bswap_intrin32 :: "mp_u32 \<Rightarrow> mp_u32" where
  "bswap_intrin32 v = of_le (rev (to_le 4 v))"

definition bswap_intrin64 :: "mp_u64 \<Rightarrow> mp_u64" where
  "bswap_intrin64 v = of_le (rev (to_le 8 v))"

text \<open>
  The caller's buffer is a list of bytes. \<open>fetch\<close> and \<open>store\<close> are what the injected
  copy function does when it is \<^verbatim>\<open>memcpy\<close>, the function the README and the tests
  bind: \<open>fetch pos count mem\<close> are the \<open>count\<close> bytes at offset \<open>pos\<close>, and
  \<open>store pos bytes mem\<close> overwrites the bytes at offset \<open>pos\<close>.
\<close>

definition fetch :: "nat \<Rightarrow> nat \<Rightarrow> mp_u8 list \<Rightarrow> mp_u8 list" where
  "fetch pos count mem = take count (drop pos mem)"

definition store :: "nat \<Rightarrow> mp_u8 list \<Rightarrow> mp_u8 list \<Rightarrow> mp_u8 list" where
  "store pos bytes mem = take pos mem @ bytes @ drop (pos + length bytes) mem"

text \<open>
  Pointers. The streams hold a pointer to the one buffer of the caller, or
  \<^verbatim>\<open>nullptr\<close>; a copy function pointer is \<^verbatim>\<open>nullptr\<close> or bound. A source or
  destination argument is \<open>None\<close> for \<^verbatim>\<open>nullptr\<close> and \<open>Some bytes\<close> for a pointer to
  memory holding \<open>bytes\<close>.
\<close>

datatype ptr = Null | Buf

datatype MemoryFn = NullFn | Memcpy

definition deref :: "mp_u8 list option \<Rightarrow> mp_u8 list" where
  "deref p = (case p of None \<Rightarrow> [] | Some bytes \<Rightarrow> bytes)"

section \<open>Streams\<close>

text \<open>
  \<^verbatim>\<open>struct Stream\<close>, \<^verbatim>\<open>StreamReader\<close> and \<^verbatim>\<open>StreamWriter\<close> (mp.hpp, lines 76-685).
  The fields carry the names of the source without the trailing underscore, and the
  private methods \<^verbatim>\<open>_read_and_advance\<close>, \<^verbatim>\<open>_read_pod\<close> and \<^verbatim>\<open>_write_and_advance\<close> theirs
  without the leading one, which are not identifiers here. The public methods of the
  reader carry the prefix \<open>sr_\<close> and those of the writer the prefix \<open>wr_\<close>, after the
  members \<^verbatim>\<open>sr_\<close> and \<^verbatim>\<open>wr_\<close> through which the codec calls them; the methods of the
  codec keep their names.
\<close>

record Stream =
  position :: mp_u32
  stream_size :: mp_u32
  buffer :: ptr

record StreamReader = Stream +
  reader :: MemoryFn

record StreamWriter = Stream +
  writer :: MemoryFn

text \<open>\<^verbatim>\<open>explicit operator bool( )\<close> of the reader and of the writer.\<close>

definition reader_bool :: "StreamReader \<Rightarrow> bool" where
  "reader_bool s = (reader s \<noteq> NullFn \<and> buffer s \<noteq> Null)"

definition writer_bool :: "StreamWriter \<Rightarrow> bool" where
  "writer_bool s = (writer s \<noteq> NullFn \<and> buffer s \<noteq> Null)"

text \<open>\<^verbatim>\<open>StreamReader::set\<close> and \<^verbatim>\<open>StreamWriter::set\<close>: reset, then assign the four fields.\<close>

definition reader_set :: "mp_u32 \<Rightarrow> mp_u32 \<Rightarrow> ptr \<Rightarrow> MemoryFn \<Rightarrow> StreamReader" where
  "reader_set pos sz buf rd =
     \<lparr>position = pos, stream_size = sz, buffer = buf, reader = rd\<rparr>"

definition writer_set :: "mp_u32 \<Rightarrow> mp_u32 \<Rightarrow> ptr \<Rightarrow> MemoryFn \<Rightarrow> StreamWriter" where
  "writer_set pos sz buf wt =
     \<lparr>position = pos, stream_size = sz, buffer = buf, writer = wt\<rparr>"

text \<open>
  \<^verbatim>\<open>StreamReader::_read_and_advance\<close> (lines 233-248), in the default build (no
  \<^verbatim>\<open>_UNSAFE\<close>). The guard compares the addresses \<^verbatim>\<open>read_pos + count\<close> and \<^verbatim>\<open>end( )\<close>;
  both are offsets from the same base, added as pointers and therefore without 32-bit
  wrap-around, so the comparison is one of natural numbers. The result is the
  destination after the call and the stream after the call.
\<close>

definition read_and_advance ::
  "StreamReader \<Rightarrow> mp_u8 list \<Rightarrow> mp_u32 \<Rightarrow> mp_u8 list option \<Rightarrow> bool
     \<Rightarrow> mp_u8 list option \<times> StreamReader" where
  "read_and_advance s mem count dst peek =
     (if count = 0 \<or> dst = None \<or> stream_size s \<le> count
         \<or> unat (stream_size s) < unat (position s) + unat count
         \<or> reader_bool s = False
      then (dst, s)
      else (Some (store 0 (fetch (unat (position s)) (unat count) mem) (deref dst)),
            if peek then s else s\<lparr>position := position s + count\<rparr>))"

text \<open>
  \<^verbatim>\<open>StreamReader::_read_pod< Ty >\<close> (lines 256-268): \<^verbatim>\<open>Ty pod { }\<close> is zero-initialised,
  and \<^verbatim>\<open>sizeof( Ty )\<close> is the width of the word in bytes.
\<close>

definition read_pod :: "StreamReader \<Rightarrow> mp_u8 list \<Rightarrow> bool \<Rightarrow> 'a::len word \<times> StreamReader" where
  "read_pod s mem peek =
     (let pod = replicate (LENGTH('a) div 8) (0 :: mp_u8);
          r = read_and_advance s mem (of_nat (LENGTH('a) div 8)) (Some pod) peek
      in (of_le (deref (fst r)), snd r))"

definition sr_read_u8 :: "StreamReader \<Rightarrow> mp_u8 list \<Rightarrow> mp_u8 \<times> StreamReader" where
  "sr_read_u8 s mem = read_pod s mem False"

definition sr_read_i8 :: "StreamReader \<Rightarrow> mp_u8 list \<Rightarrow> mp_i8 \<times> StreamReader" where
  "sr_read_i8 s mem = read_pod s mem False"

definition sr_read_u16 :: "StreamReader \<Rightarrow> mp_u8 list \<Rightarrow> mp_u16 \<times> StreamReader" where
  "sr_read_u16 s mem = read_pod s mem False"

definition sr_read_i16 :: "StreamReader \<Rightarrow> mp_u8 list \<Rightarrow> mp_u16 \<times> StreamReader" where
  "sr_read_i16 s mem = read_pod s mem False"

definition sr_read_u32 :: "StreamReader \<Rightarrow> mp_u8 list \<Rightarrow> mp_u32 \<times> StreamReader" where
  "sr_read_u32 s mem = read_pod s mem False"

definition sr_read_i32 :: "StreamReader \<Rightarrow> mp_u8 list \<Rightarrow> mp_u32 \<times> StreamReader" where
  "sr_read_i32 s mem = read_pod s mem False"

definition sr_read_u64 :: "StreamReader \<Rightarrow> mp_u8 list \<Rightarrow> mp_u64 \<times> StreamReader" where
  "sr_read_u64 s mem = read_pod s mem False"

definition sr_read_i64 :: "StreamReader \<Rightarrow> mp_u8 list \<Rightarrow> mp_u64 \<times> StreamReader" where
  "sr_read_i64 s mem = read_pod s mem False"

definition sr_peek_u8 :: "StreamReader \<Rightarrow> mp_u8 list \<Rightarrow> mp_u8 \<times> StreamReader" where
  "sr_peek_u8 s mem = read_pod s mem True"

text \<open>\<^verbatim>\<open>StreamReader::read\<close> (lines 421-426).\<close>

definition sr_read ::
  "StreamReader \<Rightarrow> mp_u8 list \<Rightarrow> mp_u32 \<Rightarrow> mp_u8 list option \<Rightarrow> mp_u8 list option \<times> StreamReader" where
  "sr_read s mem count dst = read_and_advance s mem count dst False"

text \<open>
  \<^verbatim>\<open>StreamWriter::_write_and_advance\<close> (lines 566-580). The result is the stream and the
  buffer after the call.
\<close>

definition write_and_advance ::
  "StreamWriter \<Rightarrow> mp_u8 list \<Rightarrow> mp_u32 \<Rightarrow> mp_u8 list option \<Rightarrow> StreamWriter \<times> mp_u8 list" where
  "write_and_advance s mem count src =
     (if count = 0 \<or> src = None \<or> stream_size s \<le> count
         \<or> unat (stream_size s) < unat (position s) + unat count
         \<or> writer_bool s = False
      then (s, mem)
      else (s\<lparr>position := position s + count\<rparr>,
            store (unat (position s)) (take (unat count) (deref src)) mem))"

text \<open>\<^verbatim>\<open>StreamWriter::write_pod< Ty >\<close> (lines 548-557) and the typed writes.\<close>

definition write_pod :: "StreamWriter \<Rightarrow> mp_u8 list \<Rightarrow> 'a::len word \<Rightarrow> StreamWriter \<times> mp_u8 list" where
  "write_pod s mem v =
     write_and_advance s mem (of_nat (LENGTH('a) div 8)) (Some (to_le (LENGTH('a) div 8) v))"

definition wr_write_u8 :: "StreamWriter \<Rightarrow> mp_u8 list \<Rightarrow> mp_u8 \<Rightarrow> StreamWriter \<times> mp_u8 list" where
  "wr_write_u8 s mem v = write_pod s mem v"

definition wr_write_u16 :: "StreamWriter \<Rightarrow> mp_u8 list \<Rightarrow> mp_u16 \<Rightarrow> StreamWriter \<times> mp_u8 list" where
  "wr_write_u16 s mem v = write_pod s mem v"

definition wr_write_u32 :: "StreamWriter \<Rightarrow> mp_u8 list \<Rightarrow> mp_u32 \<Rightarrow> StreamWriter \<times> mp_u8 list" where
  "wr_write_u32 s mem v = write_pod s mem v"

definition wr_write_u64 :: "StreamWriter \<Rightarrow> mp_u8 list \<Rightarrow> mp_u64 \<Rightarrow> StreamWriter \<times> mp_u8 list" where
  "wr_write_u64 s mem v = write_pod s mem v"

text \<open>\<^verbatim>\<open>StreamWriter::write\<close> (lines 680-684).\<close>

definition wr_write ::
  "StreamWriter \<Rightarrow> mp_u8 list \<Rightarrow> mp_u32 \<Rightarrow> mp_u8 list option \<Rightarrow> StreamWriter \<times> mp_u8 list" where
  "wr_write s mem count src = write_and_advance s mem count src"

section \<open>Markers and decode results\<close>

text \<open>
  \<^verbatim>\<open>enum class MPMarker : mp::mp_u8\<close> (lines 797-836). A value of the enumeration is any
  byte: \<^verbatim>\<open>static_cast< MPMarker >( raw )\<close> keeps the byte as it is, also when no
  enumerator has that value. The enumerators are therefore named bytes.
\<close>

type_synonym MPMarker = mp_u8

definition PosFixInt :: MPMarker where "PosFixInt = 0x00"
definition FixMap :: MPMarker where "FixMap = 0x80"
definition FixArray :: MPMarker where "FixArray = 0x90"
definition FixStr :: MPMarker where "FixStr = 0xa0"
definition Nil_marker :: MPMarker where "Nil_marker = 0xc0"
definition Unused :: MPMarker where "Unused = 0xc1"
definition False_marker :: MPMarker where "False_marker = 0xc2"
definition True_marker :: MPMarker where "True_marker = 0xc3"
definition Bin8 :: MPMarker where "Bin8 = 0xc4"
definition Bin16 :: MPMarker where "Bin16 = 0xc5"
definition Bin32 :: MPMarker where "Bin32 = 0xc6"
definition Ext8 :: MPMarker where "Ext8 = 0xc7"
definition Ext16 :: MPMarker where "Ext16 = 0xc8"
definition Ext32 :: MPMarker where "Ext32 = 0xc9"
definition Float32 :: MPMarker where "Float32 = 0xca"
definition Float64 :: MPMarker where "Float64 = 0xcb"
definition Uint8 :: MPMarker where "Uint8 = 0xcc"
definition Uint16 :: MPMarker where "Uint16 = 0xcd"
definition Uint32 :: MPMarker where "Uint32 = 0xce"
definition Uint64 :: MPMarker where "Uint64 = 0xcf"
definition Int8 :: MPMarker where "Int8 = 0xd0"
definition Int16 :: MPMarker where "Int16 = 0xd1"
definition Int32 :: MPMarker where "Int32 = 0xd2"
definition Int64 :: MPMarker where "Int64 = 0xd3"
definition FixExt1 :: MPMarker where "FixExt1 = 0xd4"
definition FixExt2 :: MPMarker where "FixExt2 = 0xd5"
definition FixExt4 :: MPMarker where "FixExt4 = 0xd6"
definition FixExt8 :: MPMarker where "FixExt8 = 0xd7"
definition FixExt16 :: MPMarker where "FixExt16 = 0xd8"
definition Str8 :: MPMarker where "Str8 = 0xd9"
definition Str16 :: MPMarker where "Str16 = 0xda"
definition Str32 :: MPMarker where "Str32 = 0xdb"
definition Array16 :: MPMarker where "Array16 = 0xdc"
definition Array32 :: MPMarker where "Array32 = 0xdd"
definition Map16 :: MPMarker where "Map16 = 0xde"
definition Map32 :: MPMarker where "Map32 = 0xdf"
definition NegFixInt :: MPMarker where "NegFixInt = 0xe0"

text \<open>The constants of \<^verbatim>\<open>namespace limits\<close> and \<^verbatim>\<open>mp::value_limits\<close> that the encoder compares with.\<close>

definition uint8_max :: mp_u64 where "uint8_max = 0xff"
definition uint16_max :: mp_u64 where "uint16_max = 0xffff"
definition uint32_max :: mp_u64 where "uint32_max = 0xffffffff"
definition FixArrayMax :: mp_u64 where "FixArrayMax = 15"
definition Array16Max :: mp_u64 where "Array16Max = 65535"
definition FixMapMax :: mp_u64 where "FixMapMax = 15"
definition Map16Max :: mp_u64 where "Map16Max = 65535"
definition Map32Max :: mp_u64 where "Map32Max = 4294967295"
definition PosFixIntMax :: mp_u64 where "PosFixIntMax = 127"

text \<open>
  \<^verbatim>\<open>struct MPDecodeResult\<close> (lines 868-1009). The anonymous union \<^verbatim>\<open>result\<close> is its
  storage: 32 bytes (the 31 of \<^verbatim>\<open>as_fixstr\<close>, rounded to the alignment of \<^verbatim>\<open>as_u64\<close>).
  Every member starts at offset 0 and is read in host byte order. The field \<^verbatim>\<open>size\<close> is
  \<open>size_dr\<close> here.
\<close>

record MPDecodeResult =
  marker :: MPMarker
  size_dr :: mp_u32
  result :: "mp_u8 list"

definition as_u8 :: "MPDecodeResult \<Rightarrow> mp_u8" where
  "as_u8 dr = of_le (take 1 (result dr))"

definition as_i8 :: "MPDecodeResult \<Rightarrow> mp_i8" where
  "as_i8 dr = of_le (take 1 (result dr))"

definition as_u16 :: "MPDecodeResult \<Rightarrow> mp_u16" where
  "as_u16 dr = of_le (take 2 (result dr))"

definition as_u32 :: "MPDecodeResult \<Rightarrow> mp_u32" where
  "as_u32 dr = of_le (take 4 (result dr))"

definition as_u64 :: "MPDecodeResult \<Rightarrow> mp_u64" where
  "as_u64 dr = of_le (take 8 (result dr))"

definition as_fixstr :: "MPDecodeResult \<Rightarrow> mp_u8 list" where
  "as_fixstr dr = take 31 (result dr)"

text \<open>An assignment to a member of the union writes its bytes at an offset of the storage.\<close>

definition put_result :: "nat \<Rightarrow> mp_u8 list \<Rightarrow> MPDecodeResult \<Rightarrow> MPDecodeResult" where
  "put_result off bytes dr = dr\<lparr>result := store off bytes (result dr)\<rparr>"

definition is_fixext :: "MPMarker \<Rightarrow> bool" where
  "is_fixext mk =
     (mk = FixExt1 \<or> mk = FixExt2 \<or> mk = FixExt4 \<or> mk = FixExt8 \<or> mk = FixExt16)"

section \<open>The codec\<close>

text \<open>
  \<^verbatim>\<open>struct MessagePack\<close> (lines 1011-2080). Its two streams point to the same buffer, so
  a state of the codec is the object together with the contents of that buffer.
\<close>

record MessagePack =
  sr :: StreamReader
  wr :: StreamWriter
  mp_buffer :: ptr
  mp_reader :: MemoryFn

type_synonym mpstate = "MessagePack \<times> mp_u8 list"

definition initialize_streams ::
  "mp_u32 \<Rightarrow> mp_u32 \<Rightarrow> ptr \<Rightarrow> MemoryFn \<Rightarrow> MemoryFn \<Rightarrow> MessagePack" where
  "initialize_streams pos sz buf rd wt =
     \<lparr>sr = reader_set pos sz buf rd, wr = writer_set pos sz buf wt,
      mp_buffer = buf, mp_reader = rd\<rparr>"

definition read_cursor :: "MessagePack \<Rightarrow> mp_u32" where
  "read_cursor m = position (sr m)"

definition write_cursor :: "MessagePack \<Rightarrow> mp_u32" where
  "write_cursor m = position (wr m)"

text \<open>A call on the member \<^verbatim>\<open>wr_\<close>, and a call on the member \<^verbatim>\<open>sr_\<close>, of a codec state.\<close>

definition on_wr ::
  "(StreamWriter \<Rightarrow> mp_u8 list \<Rightarrow> StreamWriter \<times> mp_u8 list) \<Rightarrow> mpstate \<Rightarrow> mpstate" where
  "on_wr f st = (let r = f (wr (fst st)) (snd st) in ((fst st)\<lparr>wr := fst r\<rparr>, snd r))"

definition on_sr ::
  "(StreamReader \<Rightarrow> mp_u8 list \<Rightarrow> 'v \<times> StreamReader) \<Rightarrow> mpstate \<Rightarrow> 'v \<times> mpstate" where
  "on_sr f st = (let r = f (sr (fst st)) (snd st) in (fst r, ((fst st)\<lparr>sr := snd r\<rparr>, snd st)))"

subsection \<open>Encoding\<close>

definition write_marker :: "MPMarker \<Rightarrow> mpstate \<Rightarrow> mpstate" where
  "write_marker mk st = on_wr (\<lambda>s m. wr_write_u8 s m mk) st"

text \<open>
  \<^verbatim>\<open>write_negfixint\<close> (lines 1197-1204): \<^verbatim>\<open>value & 0x1F\<close> is computed on the promoted
  \<^verbatim>\<open>int\<close> and lies in 0..31, so the byte written is the tag with the low five bits of
  the value.
\<close>

definition write_negfixint :: "mp_i8 \<Rightarrow> mpstate \<Rightarrow> mpstate" where
  "write_negfixint v st = on_wr (\<lambda>s m. wr_write_u8 s m (0xe0 OR (v AND 0x1F))) st"

text \<open>
  The two length-driven families of \<^verbatim>\<open>write_raw_value\<close> (lines 1261-1329): the branch
  for Bin8/16/32 and the branch for Str8/16/32 have the same text up to the three
  markers.
\<close>

definition write_family ::
  "MPMarker \<Rightarrow> MPMarker \<Rightarrow> MPMarker \<Rightarrow> mp_u64 \<Rightarrow> mp_u8 list option \<Rightarrow> mpstate \<Rightarrow> mpstate" where
  "write_family m8 m16 m32 sz src st =
     (let len = (ucast sz :: mp_u32) in
      if sz \<le> uint8_max then
        (let len1 = len AND 0xff;
             st1 = write_marker m8 st;
             st2 = on_wr (\<lambda>s m. wr_write_u8 s m (ucast len1)) st1
         in on_wr (\<lambda>s m. wr_write s m len1 src) st2)
      else if sz \<le> uint16_max then
        (let len1 = len AND 0xffff;
             st1 = write_marker m16 st;
             st2 = on_wr (\<lambda>s m. wr_write_u16 s m (bswap_intrin16 (ucast len1))) st1
         in on_wr (\<lambda>s m. wr_write s m len1 src) st2)
      else if sz \<le> uint32_max then
        (let len1 = len AND 0xffffffff;
             st1 = write_marker m32 st;
             st2 = on_wr (\<lambda>s m. wr_write_u32 s m (bswap_intrin32 len1)) st1
         in on_wr (\<lambda>s m. wr_write s m len1 src) st2)
      else on_wr (\<lambda>s m. wr_write s m len src) st)"

text \<open>
  \<^verbatim>\<open>write_raw_value\<close> (lines 1216-1410). \<open>data\<close> is the 64-bit argument; \<open>src\<close> is the
  memory it points to where a branch reinterprets it as a pointer (\<open>None\<close> for
  \<^verbatim>\<open>nullptr\<close>), and is not looked at by the branches that take \<open>data\<close> as a value.
\<close>

definition write_raw_value ::
  "mp_u64 \<Rightarrow> mp_u64 \<Rightarrow> MPMarker \<Rightarrow> mp_u8 list option \<Rightarrow> mpstate \<Rightarrow> mpstate" where
  "write_raw_value data sz kind src st =
     (if kind = NegFixInt then
        on_wr (\<lambda>s m. wr_write_u8 s m (0xe0 OR ucast (data AND 0x1F))) st
      else if kind = PosFixInt then
        on_wr (\<lambda>s m. wr_write_u8 s m (ucast (data AND 0x7f))) st
      else if kind = FixStr then
        (let len = (ucast (sz AND 0x1f) :: mp_u8);
             st1 = on_wr (\<lambda>s m. wr_write_u8 s m (kind OR len)) st
         in on_wr (\<lambda>s m. wr_write s m (ucast len) src) st1)
      else if kind = Nil_marker \<or> kind = False_marker \<or> kind = True_marker then
        write_marker kind st
      else if kind = Bin8 \<or> kind = Bin16 \<or> kind = Bin32 then
        write_family Bin8 Bin16 Bin32 sz src st
      else if kind = Str8 \<or> kind = Str16 \<or> kind = Str32 then
        write_family Str8 Str16 Str32 sz src st
      else
        (let st1 = write_marker kind st in
         if kind = Uint8 \<or> kind = Int8 then
           on_wr (\<lambda>s m. wr_write_u8 s m (ucast (data AND 0xff))) st1
         else if kind = Uint16 \<or> kind = Int16 then
           on_wr (\<lambda>s m. wr_write_u16 s m (bswap_intrin16 (ucast (data AND 0xffff)))) st1
         else if kind = Uint32 \<or> kind = Int32 then
           on_wr (\<lambda>s m. wr_write_u32 s m (bswap_intrin32 (ucast (data AND 0xffffffff)))) st1
         else if kind = Uint64 \<or> kind = Int64 then
           on_wr (\<lambda>s m. wr_write_u64 s m (bswap_intrin64 data)) st1
         else if kind = FixExt1 then on_wr (\<lambda>s m. wr_write s m 2 src) st1
         else if kind = FixExt2 then on_wr (\<lambda>s m. wr_write s m 3 src) st1
         else if kind = FixExt4 then on_wr (\<lambda>s m. wr_write s m 5 src) st1
         else if kind = FixExt8 then on_wr (\<lambda>s m. wr_write s m 9 src) st1
         else if kind = FixExt16 then on_wr (\<lambda>s m. wr_write s m 17 src) st1
         else st1))"

text \<open>\<^verbatim>\<open>start_array\<close> (lines 1417-1437) and \<^verbatim>\<open>start_map\<close> (lines 1446-1464).\<close>

definition start_array :: "mp_u64 \<Rightarrow> mpstate \<Rightarrow> mpstate" where
  "start_array num_elem st =
     (if num_elem \<le> FixArrayMax then
        on_wr (\<lambda>s m. wr_write_u8 s m (FixArray OR ucast (num_elem AND 0xf))) st
      else if num_elem \<le> Array16Max then
        on_wr (\<lambda>s m. wr_write_u16 s m (bswap_intrin16 (ucast (num_elem AND 0xffff))))
          (write_marker Array16 st)
      else
        on_wr (\<lambda>s m. wr_write_u32 s m (bswap_intrin32 (ucast (num_elem AND 0xffffffff))))
          (write_marker Array32 st))"

definition start_map :: "mp_u64 \<Rightarrow> mpstate \<Rightarrow> mpstate" where
  "start_map num_pairs st =
     (if num_pairs \<le> Map16Max then
        on_wr (\<lambda>s m. wr_write_u8 s m (FixMap OR ucast (num_pairs AND 0xf))) st
      else if num_pairs \<le> Map32Max then
        on_wr (\<lambda>s m. wr_write_u16 s m (bswap_intrin16 (ucast (num_pairs AND 0xffff))))
          (write_marker Map16 st)
      else
        on_wr (\<lambda>s m. wr_write_u32 s m (bswap_intrin32 (ucast (num_pairs AND 0xffffffff))))
          (write_marker Map32 st))"

text \<open>
  The typed writes of the codec (lines 1547-1668). They pass a value, not a pointer, so
  \<open>src\<close> is \<open>None\<close>.
\<close>

definition write_u8 :: "mp_u8 \<Rightarrow> mpstate \<Rightarrow> mpstate" where
  "write_u8 v st = write_raw_value (ucast v) 1 Uint8 None st"

definition write_u16 :: "mp_u16 \<Rightarrow> mpstate \<Rightarrow> mpstate" where
  "write_u16 v st = write_raw_value (ucast v) 2 Uint16 None st"

definition write_u32 :: "mp_u32 \<Rightarrow> mpstate \<Rightarrow> mpstate" where
  "write_u32 v st = write_raw_value (ucast v) 4 Uint32 None st"

definition write_u64 :: "mp_u64 \<Rightarrow> mpstate \<Rightarrow> mpstate" where
  "write_u64 v st = write_raw_value v 8 Uint64 None st"

definition write_posfixint :: "mp_u8 \<Rightarrow> mpstate \<Rightarrow> mpstate" where
  "write_posfixint v st = write_raw_value (ucast v) 1 PosFixInt None st"

definition write_fixint :: "mp_i8 \<Rightarrow> mpstate \<Rightarrow> mpstate" where
  "write_fixint v st = (if 0 < sint v then write_posfixint v st else write_negfixint v st)"

definition write_uint :: "mp_u64 \<Rightarrow> mpstate \<Rightarrow> mpstate" where
  "write_uint v st =
     (if v \<le> PosFixIntMax then write_posfixint (ucast (v AND 0x7F)) st
      else if v \<le> uint8_max then write_u8 (ucast v) st
      else if v \<le> uint16_max then write_u16 (ucast v) st
      else if v \<le> uint32_max then write_u32 (ucast v) st
      else write_u64 v st)"

subsection \<open>Decoding\<close>

text \<open>
  The typed reads of the codec (lines 1470-1540): the stream's read, byte-swapped for
  the widths above one byte.
\<close>

definition read_u8 :: "mpstate \<Rightarrow> mp_u8 \<times> mpstate" where
  "read_u8 st = on_sr sr_read_u8 st"

definition read_u16 :: "mpstate \<Rightarrow> mp_u16 \<times> mpstate" where
  "read_u16 st = (let r = on_sr sr_read_u16 st in (bswap_intrin16 (fst r), snd r))"

definition read_u32 :: "mpstate \<Rightarrow> mp_u32 \<times> mpstate" where
  "read_u32 st = (let r = on_sr sr_read_u32 st in (bswap_intrin32 (fst r), snd r))"

definition read_u64 :: "mpstate \<Rightarrow> mp_u64 \<times> mpstate" where
  "read_u64 st = (let r = on_sr sr_read_u64 st in (bswap_intrin64 (fst r), snd r))"

definition read_i16 :: "mpstate \<Rightarrow> mp_u16 \<times> mpstate" where
  "read_i16 st = (let r = on_sr sr_read_i16 st in (bswap_intrin16 (fst r), snd r))"

definition read_i32 :: "mpstate \<Rightarrow> mp_u32 \<times> mpstate" where
  "read_i32 st = (let r = on_sr sr_read_i32 st in (bswap_intrin32 (fst r), snd r))"

definition read_i64 :: "mpstate \<Rightarrow> mp_u64 \<times> mpstate" where
  "read_i64 st = (let r = on_sr sr_read_i64 st in (bswap_intrin64 (fst r), snd r))"

text \<open>
  \<^verbatim>\<open>sr_.read( count, dst )\<close> where \<open>dst\<close> points into the union of the result, \<open>off\<close>
  bytes from its start.
\<close>

definition read_into :: "nat \<Rightarrow> mp_u32 \<Rightarrow> MPDecodeResult \<Rightarrow> mpstate \<Rightarrow> MPDecodeResult \<times> mpstate" where
  "read_into off count dr st =
     (let r = on_sr (\<lambda>s m. sr_read s m count (Some (drop off (result dr)))) st
      in (dr\<lparr>result := take off (result dr) @ deref (fst r)\<rparr>, snd r))"

text \<open>The \<^verbatim>\<open>switch ( dr.marker )\<close> of \<^verbatim>\<open>decode_single\<close> (lines 1862-2042).\<close>

definition decode_switch :: "MPDecodeResult \<Rightarrow> mpstate \<Rightarrow> MPDecodeResult \<times> mpstate" where
  "decode_switch dr st =
     (let mk = marker dr in
      if mk = PosFixInt \<or> mk = FixMap \<or> mk = FixArray \<or> mk = FixStr \<or> mk = NegFixInt then
        (dr, st)
      else if mk = Nil_marker \<or> mk = False_marker then
        (put_result 0 [0] (dr\<lparr>size_dr := 1\<rparr>), st)
      else if mk = Unused then (dr, st)
      else if mk = True_marker then
        (put_result 0 [1] (dr\<lparr>size_dr := 1\<rparr>), st)
      else if mk = Str8 \<or> mk = Bin8 then
        (let r = read_u8 st in (dr\<lparr>size_dr := ucast (fst r)\<rparr>, snd r))
      else if mk = Str16 \<or> mk = Bin16 then
        (let r = read_u16 st in (dr\<lparr>size_dr := ucast (fst r)\<rparr>, snd r))
      else if mk = Str32 \<or> mk = Bin32 then
        (let r = read_u32 st in (dr\<lparr>size_dr := fst r\<rparr>, snd r))
      else if mk = Ext8 then
        (let r = read_u8 st in (dr\<lparr>size_dr := ucast (fst r)\<rparr>, snd r))
      else if mk = Ext16 then
        (let r = read_u16 st in (dr\<lparr>size_dr := ucast (fst r)\<rparr>, snd r))
      else if mk = Ext32 then
        (let r = read_u32 st in (dr\<lparr>size_dr := fst r\<rparr>, snd r))
      else if mk = Float32 \<or> mk = Float64 then (dr, st)
      else if mk = Uint8 then
        (let r = read_u8 st in (put_result 0 (to_le 1 (fst r)) (dr\<lparr>size_dr := 1\<rparr>), snd r))
      else if mk = Uint16 then
        (let r = read_u16 st in (put_result 0 (to_le 2 (fst r)) (dr\<lparr>size_dr := 2\<rparr>), snd r))
      else if mk = Uint32 then
        (let r = read_u32 st in (put_result 0 (to_le 4 (fst r)) (dr\<lparr>size_dr := 4\<rparr>), snd r))
      else if mk = Uint64 then
        (let r = on_sr sr_read_u64 st
         in (put_result 0 (to_le 8 (fst r)) (dr\<lparr>size_dr := 8\<rparr>), snd r))
      else if mk = Int8 then
        (let r = on_sr sr_read_i8 st
         in (put_result 0 (to_le 1 (fst r)) (dr\<lparr>size_dr := 1\<rparr>), snd r))
      else if mk = Int16 then
        (let r = read_i16 st in (put_result 0 (to_le 2 (fst r)) (dr\<lparr>size_dr := 2\<rparr>), snd r))
      else if mk = Int32 then
        (let r = read_i32 st in (put_result 0 (to_le 4 (fst r)) (dr\<lparr>size_dr := 4\<rparr>), snd r))
      else if mk = Int64 then
        (let r = read_i64 st in (put_result 0 (to_le 8 (fst r)) (dr\<lparr>size_dr := 8\<rparr>), snd r))
      else if mk = FixExt1 then
        (let r1 = read_u8 st;
             dr1 = put_result 0 [fst r1] (dr\<lparr>size_dr := 2\<rparr>);
             r2 = read_u8 (snd r1)
         in (put_result 1 [fst r2] dr1, snd r2))
      else if mk = FixExt2 then
        (let r1 = read_u8 st
         in read_into 1 2 (put_result 0 [fst r1] (dr\<lparr>size_dr := 3\<rparr>)) (snd r1))
      else if mk = FixExt4 then
        (let r1 = read_u8 st
         in read_into 1 4 (put_result 0 [fst r1] (dr\<lparr>size_dr := 5\<rparr>)) (snd r1))
      else if mk = FixExt8 then
        (let r1 = read_u8 st
         in read_into 1 8 (put_result 0 [fst r1] (dr\<lparr>size_dr := 9\<rparr>)) (snd r1))
      else if mk = FixExt16 then
        (let r1 = read_u8 st
         in read_into 1 16 (put_result 0 [fst r1] (dr\<lparr>size_dr := 17\<rparr>)) (snd r1))
      else if mk = Map16 \<or> mk = Array16 then
        (let r = on_sr sr_read_u16 st in (dr\<lparr>size_dr := ucast (fst r)\<rparr>, snd r))
      else if mk = Map32 \<or> mk = Array32 then
        (let r = on_sr sr_read_u32 st in (dr\<lparr>size_dr := fst r\<rparr>, snd r))
      else (dr, st))"

text \<open>
  The resolution of the compact ranges after the switch (lines 2044-2076, "Edge cases are
  handled with lower priority"). \<^verbatim>\<open>( raw & 0x1F ) - 0x20\<close> is computed on \<^verbatim>\<open>int\<close> and cast
  to \<^verbatim>\<open>mp_i8\<close>, which is the subtraction on bytes.
\<close>

definition decode_edge ::
  "mp_u8 \<Rightarrow> MPMarker \<Rightarrow> MPDecodeResult \<Rightarrow> mpstate \<Rightarrow> MPDecodeResult \<times> mpstate" where
  "decode_edge raw mk dr st =
     (if is_fixext mk = False \<and> size_dr dr = 0 then
        (if raw AND 0x80 = 0 then
           (put_result 0 [raw AND 0x7f] (dr\<lparr>marker := PosFixInt, size_dr := 1\<rparr>), st)
         else if raw AND 0xe0 = 0xe0 then
           (put_result 0 [(raw AND 0x1F) - 0x20] (dr\<lparr>marker := NegFixInt, size_dr := 1\<rparr>), st)
         else if raw AND 0x80 = 0x80 then
           (dr\<lparr>marker := FixMap, size_dr := ucast (raw AND 0xf)\<rparr>, st)
         else if raw AND 0x90 = 0x90 then
           (dr\<lparr>marker := FixArray, size_dr := ucast (raw AND 0xf)\<rparr>, st)
         else if raw AND 0xa0 = 0xa0 then
           read_into 0 (ucast (raw AND 0x1f))
             (dr\<lparr>marker := FixStr, size_dr := ucast (raw AND 0x1f)\<rparr>) st
         else (dr, st))
      else (dr, st))"

text \<open>
  \<^verbatim>\<open>decode_single\<close> (lines 1850-2079): \<^verbatim>\<open>MPDecodeResult dr { }\<close> is zero-initialised, the
  marker is the byte read, and \<^verbatim>\<open>dr.result.as_u64 = 0\<close> clears the first eight bytes of
  the union.
\<close>

definition decode_init :: "MPMarker \<Rightarrow> MPDecodeResult" where
  "decode_init mk =
     put_result 0 (to_le 8 (0 :: mp_u64))
       \<lparr>marker = mk, size_dr = 0, result = replicate 32 0\<rparr>"

definition decode_single :: "mpstate \<Rightarrow> MPDecodeResult \<times> mpstate" where
  "decode_single st =
     (let r = read_u8 st;
          raw = fst r;
          mk = raw;
          sw = decode_switch (decode_init mk) (snd r)
      in decode_edge raw mk (fst sw) (snd sw))"

text \<open>
  Sequences of calls on one stream, as a caller issues them: each read is a count, a
  destination and the peek flag; each write is a count and a source.
\<close>

fun run_reads ::
  "StreamReader \<Rightarrow> mp_u8 list \<Rightarrow> (mp_u32 \<times> mp_u8 list option \<times> bool) list \<Rightarrow> StreamReader" where
  "run_reads s mem [] = s"
| "run_reads s mem ((count, dst, peek) # ops) =
     run_reads (snd (read_and_advance s mem count dst peek)) mem ops"

fun run_writes ::
  "StreamWriter \<times> mp_u8 list \<Rightarrow> (mp_u32 \<times> mp_u8 list option) list \<Rightarrow> StreamWriter \<times> mp_u8 list" where
  "run_writes sm [] = sm"
| "run_writes sm ((count, src) # ops) =
     run_writes (write_and_advance (fst sm) (snd sm) count src) ops"

text \<open>A destination is zero-filled when every byte of it is 0.\<close>

definition zero_filled :: "mp_u8 list \<Rightarrow> bool" where
  "zero_filled bytes = (bytes = replicate (length bytes) 0)"

text \<open>
  A codec as the tests and the README set it up: \<^verbatim>\<open>initialize_streams\<close> at position 0
  over a zero-filled buffer of \<open>n\<close> bytes, with \<^verbatim>\<open>memcpy\<close> bound for reading and writing.
\<close>

definition fresh :: "nat \<Rightarrow> mpstate" where
  "fresh n = (initialize_streams 0 (of_nat n) Buf Memcpy Memcpy, replicate n 0)"

section \<open>Facts about the streams\<close>

lemmas MPMarker_defs =
  PosFixInt_def FixMap_def FixArray_def FixStr_def Nil_marker_def Unused_def False_marker_def
  True_marker_def Bin8_def Bin16_def Bin32_def Ext8_def Ext16_def Ext32_def Float32_def
  Float64_def Uint8_def Uint16_def Uint32_def Uint64_def Int8_def Int16_def Int32_def Int64_def
  FixExt1_def FixExt2_def FixExt4_def FixExt8_def FixExt16_def Str8_def Str16_def Str32_def
  Array16_def Array32_def Map16_def Map32_def NegFixInt_def

lemma read_guard_rejects:
  "count = 0 \<or> dst = None \<or> stream_size s \<le> count
     \<or> unat (stream_size s) < unat (position s) + unat count
     \<or> reader s = NullFn \<or> buffer s = Null
   \<Longrightarrow> read_and_advance s mem count dst peek = (dst, s)"
  by (auto simp: read_and_advance_def reader_bool_def)

lemma write_guard_rejects:
  "count = 0 \<or> src = None \<or> stream_size s \<le> count
     \<or> unat (stream_size s) < unat (position s) + unat count
     \<or> writer s = NullFn \<or> buffer s = Null
   \<Longrightarrow> write_and_advance s mem count src = (s, mem)"
  by (auto simp: write_and_advance_def writer_bool_def)

text \<open>An accepted count does not wrap the 32-bit position.\<close>

lemma advance_le:
  fixes p c n :: mp_u32
  assumes "\<not> unat n < unat p + unat c"
  shows "p + c \<le> n"
proof -
  have le: "unat p + unat c \<le> unat n" using assms by simp
  moreover have "unat n < 2 ^ 32" using unsigned_less [of n] by simp
  ultimately have "unat (p + c) = unat p + unat c"
    by (simp add: unat_word_ariths)
  then show ?thesis using le by (simp add: word_le_nat_alt)
qed

lemma read_keeps_bound:
  "position s \<le> stream_size s \<Longrightarrow>
   position (snd (read_and_advance s mem count dst peek)) \<le> stream_size s
   \<and> stream_size (snd (read_and_advance s mem count dst peek)) = stream_size s"
  by (auto simp: read_and_advance_def advance_le)

lemma write_keeps_bound:
  "position s \<le> stream_size s \<Longrightarrow>
   position (fst (write_and_advance s mem count src)) \<le> stream_size s
   \<and> stream_size (fst (write_and_advance s mem count src)) = stream_size s"
  by (auto simp: write_and_advance_def advance_le)

lemma run_reads_keeps_bound:
  "position s \<le> stream_size s \<Longrightarrow>
   position (run_reads s mem ops) \<le> stream_size s
   \<and> stream_size (run_reads s mem ops) = stream_size s"
proof (induction ops arbitrary: s)
  case Nil
  then show ?case by simp
next
  case (Cons op ops)
  obtain count dst peek where op: "op = (count, dst, peek)" by (cases op) auto
  let ?s = "snd (read_and_advance s mem count dst peek)"
  from read_keeps_bound [OF Cons.prems, of mem count dst peek]
  have a: "position ?s \<le> stream_size ?s" and b: "stream_size ?s = stream_size s"
    by simp_all
  from Cons.IH [OF a] b show ?case by (simp add: op)
qed

lemma run_writes_keeps_bound:
  "position (fst sm) \<le> stream_size (fst sm) \<Longrightarrow>
   position (fst (run_writes sm ops)) \<le> stream_size (fst sm)
   \<and> stream_size (fst (run_writes sm ops)) = stream_size (fst sm)"
proof (induction ops arbitrary: sm)
  case Nil
  then show ?case by simp
next
  case (Cons op ops)
  obtain count src where op: "op = (count, src)" by (cases op) auto
  let ?sm = "write_and_advance (fst sm) (snd sm) count src"
  from write_keeps_bound [OF Cons.prems, of "snd sm" count src]
  have a: "position (fst ?sm) \<le> stream_size (fst ?sm)"
    and b: "stream_size (fst ?sm) = stream_size (fst sm)"
    by simp_all
  from Cons.IH [OF a] b show ?case by (simp add: op)
qed

lemma store_beyond:
  "pos + length bytes \<le> n \<Longrightarrow> n \<le> length mem \<Longrightarrow> drop n (store pos bytes mem) = drop n mem"
  by (simp add: store_def)

lemma store_length:
  "pos + length bytes \<le> length mem \<Longrightarrow> length (store pos bytes mem) = length mem"
  by (simp add: store_def)

lemma store_whole: "length bytes = length d \<Longrightarrow> store 0 bytes d = bytes"
  by (simp add: store_def)

lemma fetch_store:
  "pos < length mem \<Longrightarrow> fetch pos (Suc 0) (store pos [b] mem) = [b]"
  by (simp add: fetch_def store_def)

lemma write_beyond:
  "unat (stream_size s) \<le> length mem \<Longrightarrow>
   drop (unat (stream_size s)) (snd (write_and_advance s mem count src))
     = drop (unat (stream_size s)) mem
   \<and> length (snd (write_and_advance s mem count src)) = length mem
   \<and> stream_size (fst (write_and_advance s mem count src)) = stream_size s"
  by (auto simp: write_and_advance_def store_beyond store_length)

lemma run_writes_beyond:
  "unat (stream_size (fst sm)) \<le> length (snd sm) \<Longrightarrow>
   drop (unat (stream_size (fst sm))) (snd (run_writes sm ops))
     = drop (unat (stream_size (fst sm))) (snd sm)"
proof (induction ops arbitrary: sm)
  case Nil
  then show ?case by simp
next
  case (Cons op ops)
  obtain count src where op: "op = (count, src)" by (cases op) auto
  let ?sm = "write_and_advance (fst sm) (snd sm) count src"
  from write_beyond [OF Cons.prems, of count src]
  have a: "drop (unat (stream_size (fst sm))) (snd ?sm) = drop (unat (stream_size (fst sm))) (snd sm)"
    and b: "length (snd ?sm) = length (snd sm)"
    and c: "stream_size (fst ?sm) = stream_size (fst sm)"
    by simp_all
  have "unat (stream_size (fst ?sm)) \<le> length (snd ?sm)"
    using Cons.prems b c by simp
  from Cons.IH [OF this] a c show ?case by (simp add: op)
qed

lemma of_le_zero: "(of_le (replicate n 0) :: 'a::len word) = 0"
  by (induction n) simp_all

lemma read_pod_rejected:
  fixes s :: StreamReader
  assumes "count = (of_nat (LENGTH('a::len) div 8) :: mp_u32)"
    and "count = 0 \<or> stream_size s \<le> count
         \<or> unat (stream_size s) < unat (position s) + unat count
         \<or> reader s = NullFn \<or> buffer s = Null"
  shows "(read_pod s mem peek :: 'a word \<times> StreamReader) = (0, s)"
  using assms(2) unfolding read_pod_def Let_def assms(1) [symmetric]
  by (subst read_guard_rejects, blast)+ (simp add: deref_def of_le_zero)

lemma exhausted_rejects:
  fixes s :: StreamReader
  assumes "stream_size s \<le> position s"
  shows "read_and_advance s mem count dst peek = (dst, s)"
proof (cases "count = 0")
  case True
  then show ?thesis by (simp add: read_guard_rejects)
next
  case False
  then have "0 < unat count" by (simp add: unat_gt_0)
  moreover have "unat (stream_size s) \<le> unat (position s)"
    using assms by (simp add: word_le_nat_alt)
  ultimately have "unat (stream_size s) < unat (position s) + unat count" by simp
  then show ?thesis by (simp add: read_guard_rejects)
qed

lemma exhausted_run_reads:
  fixes s :: StreamReader
  shows "stream_size s \<le> position s \<Longrightarrow> run_reads s mem ops = s"
proof (induction ops)
  case Nil
  then show ?case by simp
next
  case (Cons op ops)
  obtain count dst peek where op: "op = (count, dst, peek)" by (cases op) auto
  with Cons show ?case by (simp add: exhausted_rejects)
qed

section \<open>Facts about the codec\<close>

text \<open>
  One byte written through the write stream and read back through the read stream, when
  both streams stand at the same position of a bound buffer with room for the byte.
\<close>

lemma write_byte:
  fixes m :: MessagePack
  assumes "writer (wr m) = Memcpy" and "buffer (wr m) = Buf"
    and "1 < stream_size (wr m)"
    and "unat (position (wr m)) < unat (stream_size (wr m))"
  shows "on_wr (\<lambda>s m. wr_write_u8 s m b) (m, mem)
       = (m\<lparr>wr := (wr m)\<lparr>position := position (wr m) + 1\<rparr>\<rparr>,
          store (unat (position (wr m))) [b] mem)"
proof -
  have "\<not> stream_size (wr m) \<le> 1" using assms(3) by simp
  then show ?thesis
    using assms
    by (simp add: on_wr_def wr_write_u8_def write_pod_def write_and_advance_def writer_bool_def
        deref_def Let_def)
qed

lemma write_byte_then_read:
  fixes m :: MessagePack
  assumes "position (sr m) = position (wr m)"
    and "stream_size (sr m) = stream_size (wr m)"
    and "reader (sr m) = Memcpy" and "writer (wr m) = Memcpy"
    and "buffer (sr m) = Buf" and "buffer (wr m) = Buf"
    and "1 < stream_size (wr m)"
    and "unat (position (wr m)) < unat (stream_size (wr m))"
    and "unat (stream_size (wr m)) \<le> length mem"
  shows "fst (read_u8 (on_wr (\<lambda>s m. wr_write_u8 s m b) (m, mem))) = b"
proof -
  have g: "\<not> stream_size (wr m) \<le> 1" using assms(7) by simp
  have p: "unat (position (wr m)) < length mem" using assms(8,9) by simp
  show ?thesis
    unfolding write_byte [OF assms(4) assms(6) assms(7) assms(8)] using assms g p
    by (simp add: read_u8_def on_sr_def sr_read_u8_def read_pod_def read_and_advance_def
        reader_bool_def deref_def Let_def fetch_store store_whole)
qed

lemma decode_byte_7f:
  assumes "fst (read_u8 st) = 0x7f"
  shows "marker (fst (decode_single st)) = PosFixInt \<and> as_u8 (fst (decode_single st)) = 127"
  using assms
  by (simp add: decode_single_def decode_init_def decode_switch_def decode_edge_def Let_def
      put_result_def is_fixext_def MPMarker_defs as_u8_def store_def)

lemma decode_byte_ec:
  assumes "fst (read_u8 st) = 0xec"
  shows "marker (fst (decode_single st)) = NegFixInt
       \<and> sint (as_i8 (fst (decode_single st))) = - 20"
  using assms
  by (simp add: decode_single_def decode_init_def decode_switch_def decode_edge_def Let_def
      put_result_def is_fixext_def MPMarker_defs as_i8_def store_def)

lemma decode_byte_ff:
  assumes "fst (read_u8 st) = 0xff"
  shows "marker (fst (decode_single st)) = NegFixInt
       \<and> sint (as_i8 (fst (decode_single st))) = - 1"
  using assms
  by (simp add: decode_single_def decode_init_def decode_switch_def decode_edge_def Let_def
      put_result_def is_fixext_def MPMarker_defs as_i8_def store_def)

lemma write_fixint_127: "write_fixint 127 st = on_wr (\<lambda>s m. wr_write_u8 s m 0x7f) st"
  by (simp add: write_fixint_def write_posfixint_def write_raw_value_def MPMarker_defs)

lemma write_fixint_minus_20: "write_fixint (- 20) st = on_wr (\<lambda>s m. wr_write_u8 s m 0xec) st"
  by (simp add: write_fixint_def write_negfixint_def)

lemma write_fixint_minus_33: "write_fixint (- 33) st = on_wr (\<lambda>s m. wr_write_u8 s m 0xff) st"
  by (simp add: write_fixint_def write_negfixint_def)

section \<open>Byte order\<close>

lemma of_le_to_le: "(of_le (to_le n w) :: 'a::len word) = take_bit (8 * n) w"
proof (induction n arbitrary: w)
  case 0
  then show ?case by simp
next
  case (Suc n)
  show ?case
    unfolding to_le.simps of_le.simps Suc.IH
    by (rule bit_word_eqI) (auto simp: bit_simps)
qed

lemma to_le_take_bit: "8 * k \<le> m \<Longrightarrow> to_le k (take_bit m w) = to_le k (w :: 'a::len word)"
proof (induction k arbitrary: w m)
  case 0
  then show ?case by simp
next
  case (Suc k)
  have a: "(ucast (take_bit m w) :: mp_u8) = ucast w"
    using Suc.prems by (intro bit_word_eqI) (auto simp: bit_simps)
  have b: "drop_bit 8 (take_bit m w) = take_bit (m - 8) (drop_bit 8 w)"
    using Suc.prems by (intro bit_word_eqI) (auto simp: bit_simps)
  have "8 * k \<le> m - 8" using Suc.prems by simp
  from Suc.IH [OF this] a b show ?case by simp
qed

lemma to_le_of_le:
  "length bs = n \<Longrightarrow> 8 * n \<le> LENGTH('a::len) \<Longrightarrow> to_le n (of_le bs :: 'a word) = bs"
proof (induction bs arbitrary: n)
  case Nil
  then show ?case by simp
next
  case (Cons b bs)
  then obtain k where n: "n = Suc k" and k: "length bs = k" by (cases n) auto
  have l: "8 * k \<le> LENGTH('a) - 8" "8 \<le> LENGTH('a)" "8 * k \<le> LENGTH('a)" using Cons.prems n by simp_all
  have a: "(ucast (ucast b OR push_bit 8 (of_le bs :: 'a word) :: 'a word) :: mp_u8) = b"
    using l(2) by (intro bit_word_eqI) (auto simp: bit_simps)
  have b: "drop_bit 8 (ucast b OR push_bit 8 (of_le bs :: 'a word) :: 'a word)
      = take_bit (LENGTH('a) - 8) (of_le bs :: 'a word)"
    using l(2) by (intro bit_word_eqI) (auto simp: bit_simps dest: bit_imp_le_length)
  show ?case
    unfolding n of_le.simps to_le.simps a b to_le_take_bit [OF l(1)]
    using Cons.IH [OF k l(3)] by simp
qed

lemma length_to_le: "length (to_le n w) = n"
  by (induction n arbitrary: w) simp_all

lemma of_le_to_le_full: "LENGTH('a) \<le> 8 * n \<Longrightarrow> (of_le (to_le n w) :: 'a::len word) = w"
  by (simp add: of_le_to_le take_bit_word_eq_self)

lemma bswap16_bswap16: "bswap_intrin16 (bswap_intrin16 v) = v"
  by (simp add: bswap_intrin16_def to_le_of_le length_to_le of_le_to_le_full)

lemma bswap32_bswap32: "bswap_intrin32 (bswap_intrin32 v) = v"
  by (simp add: bswap_intrin32_def to_le_of_le length_to_le of_le_to_le_full)

lemma bswap64_bswap64: "bswap_intrin64 (bswap_intrin64 v) = v"
  by (simp add: bswap_intrin64_def to_le_of_le length_to_le of_le_to_le_full)

lemma write_accepted:
  assumes "writer w = Memcpy" and "buffer w = Buf" and "c \<noteq> 0"
    and "length bytes = unat c"
    and "unat c < unat (stream_size w)"
    and "unat (position w) + unat c \<le> unat (stream_size w)"
  shows "write_and_advance w mem c (Some bytes)
       = (w\<lparr>position := position w + c\<rparr>, store (unat (position w)) bytes mem)"
  using assms
  by (simp add: write_and_advance_def writer_bool_def deref_def word_le_nat_alt)

lemma read_accepted:
  assumes "reader s = Memcpy" and "buffer s = Buf" and "c \<noteq> 0"
    and "unat c < unat (stream_size s)"
    and "unat (position s) + unat c \<le> unat (stream_size s)"
  shows "read_and_advance s mem c (Some d) False
       = (Some (store 0 (fetch (unat (position s)) (unat c) mem) d),
          s\<lparr>position := position s + c\<rparr>)"
  using assms
  by (simp add: read_and_advance_def reader_bool_def deref_def word_le_nat_alt)

lemma unat_advance:
  fixes p c n :: mp_u32
  assumes "unat p + unat c \<le> unat n"
  shows "unat (p + c) = unat p + unat c"
proof -
  have "unat n < 2 ^ 32" using unsigned_less [of n] by simp
  with assms show ?thesis by (simp add: unat_word_ariths)
qed

lemma fetch_store_same:
  "pos + length bytes \<le> length mem \<Longrightarrow> fetch pos (length bytes) (store pos bytes mem) = bytes"
  by (simp add: fetch_def store_def)

lemma fetch_store_before:
  "pos + n \<le> q \<Longrightarrow> q + length bytes \<le> length mem
     \<Longrightarrow> fetch pos n (store q bytes mem) = fetch pos n mem"
proof -
  assume a: "pos + n \<le> q" and b: "q + length bytes \<le> length mem"
  have "take n (drop pos (take q mem)) = take n (take (q - pos) (drop pos mem))"
    by (simp add: drop_take)
  also have "\<dots> = take n (drop pos mem)"
    using a by (simp add: min_absorb1)
  finally show ?thesis
    using a b by (simp add: fetch_def store_def)
qed

lemma pod_size:
  "of_nat (LENGTH(8) div 8) = (1 :: mp_u32)" "of_nat (LENGTH(16) div 8) = (2 :: mp_u32)"
  "of_nat (LENGTH(32) div 8) = (4 :: mp_u32)" "of_nat (LENGTH(64) div 8) = (8 :: mp_u32)"
  by simp_all

text \<open>A marker byte and a value of \<open>k\<close> bytes behind it, written and read back.\<close>

lemma marker_then_pod_written:
  fixes m :: MessagePack and v :: "'a::len word"
  assumes "writer (wr m) = Memcpy" and "buffer (wr m) = Buf"
    and "(of_nat (LENGTH('a) div 8) :: mp_u32) = c" and "unat c = k" and "0 < k"
    and "LENGTH('a) div 8 = k"
    and "unat (position (wr m)) + 1 + k \<le> unat (stream_size (wr m))"
  shows "on_wr (\<lambda>s mm. write_pod s mm v) (write_marker mk (m, mem))
       = (m\<lparr>wr := (wr m)\<lparr>position := position (wr m) + 1 + c\<rparr>\<rparr>,
          store (unat (position (wr m)) + 1) (to_le k v)
            (store (unat (position (wr m))) [mk] mem))"
proof -
  have one: "1 < stream_size (wr m)" "unat (position (wr m)) < unat (stream_size (wr m))"
    using assms(5,7) by (simp_all add: word_less_nat_alt)
  have p1: "unat (position (wr m) + 1) = unat (position (wr m)) + 1"
    using unat_advance [of "position (wr m)" 1 "stream_size (wr m)"] assms(7) by simp
  have c0: "c \<noteq> 0" using assms(4,5) by auto
  let ?w = "(wr m)\<lparr>position := position (wr m) + 1\<rparr>"
  have w2: "write_and_advance ?w (store (unat (position (wr m))) [mk] mem) c (Some (to_le k v))
      = (?w\<lparr>position := position ?w + c\<rparr>,
         store (unat (position ?w)) (to_le k v) (store (unat (position (wr m))) [mk] mem))"
    using assms c0 p1 by (intro write_accepted) (simp_all add: length_to_le)
  have ck: "(of_nat k :: mp_u32) = c" using assms(3,6) by simp
  show ?thesis
    unfolding write_marker_def write_byte [OF assms(1) assms(2) one]
    using w2 p1 by (simp add: on_wr_def write_pod_def assms(6) ck Let_def)
qed

lemma take_store_0: "length bs \<le> length r \<Longrightarrow> take (length bs) (store 0 bs r) = bs"
  by (simp add: store_def)

lemma length_result_init: "length (result (decode_init mk)) = 32"
  by (simp add: decode_init_def put_result_def store_def length_to_le)

lemma marker_then_pod_read:
  fixes m :: MessagePack
  assumes "reader (sr m) = Memcpy" and "buffer (sr m) = Buf"
    and "(of_nat (LENGTH('a::len) div 8) :: mp_u32) = c" and "unat c = k" and "0 < k"
    and "LENGTH('a) div 8 = k"
    and "unat (position (sr m)) + 1 + k \<le> unat (stream_size (sr m))"
    and "unat (stream_size (sr m)) \<le> length mem"
    and "length bytes = k"
    and "mem' = store (unat (position (sr m)) + 1) bytes (store (unat (position (sr m))) [mk] mem)"
  shows "read_u8 (m, mem') = (mk, (m\<lparr>sr := (sr m)\<lparr>position := position (sr m) + 1\<rparr>\<rparr>, mem'))
       \<and> fst (on_sr (\<lambda>s mm. (read_pod s mm False :: 'a word \<times> StreamReader))
              (m\<lparr>sr := (sr m)\<lparr>position := position (sr m) + 1\<rparr>\<rparr>, mem')) = of_le bytes"
proof -
  let ?p = "unat (position (sr m))"
  have p1: "unat (position (sr m) + 1) = ?p + 1"
    using unat_advance [of "position (sr m)" 1 "stream_size (sr m)"] assms(7) by simp
  have c0: "c \<noteq> 0" using assms(4,5) by auto
  have ck: "(of_nat k :: mp_u32) = c" using assms(3,6) by simp
  have len1: "length (store ?p [mk] mem) = length mem"
    using assms(7,8) by (simp add: store_length)
  have f1: "fetch ?p (Suc 0) mem' = [mk]"
  proof -
    have "fetch ?p (Suc 0) mem' = fetch ?p (Suc 0) (store ?p [mk] mem)"
      unfolding assms(10) using assms(7,8,9) len1 by (intro fetch_store_before) simp_all
    also have "\<dots> = [mk]" using assms(7,8) by (simp add: fetch_store)
    finally show ?thesis .
  qed
  have f2: "fetch (?p + 1) k mem' = bytes"
    unfolding assms(10) using assms(7,8,9) len1 fetch_store_same [of "?p + 1" bytes "store ?p [mk] mem"]
    by simp
  have one: "(1 :: mp_u32) \<noteq> 0" "unat (1 :: mp_u32) < unat (stream_size (sr m))"
    "?p + unat (1 :: mp_u32) \<le> unat (stream_size (sr m))"
    using assms(5,7) by simp_all
  have r1: "read_and_advance (sr m) mem' 1 (Some [0]) False
      = (Some (store 0 (fetch ?p (unat (1 :: mp_u32)) mem') [0]), (sr m)\<lparr>position := position (sr m) + 1\<rparr>)"
    by (rule read_accepted [OF assms(1) assms(2) one])
  let ?s = "(sr m)\<lparr>position := position (sr m) + 1\<rparr>"
  have r2: "read_and_advance ?s mem' c (Some (replicate k 0)) False
      = (Some (store 0 (fetch (unat (position ?s)) (unat c) mem') (replicate k 0)),
         ?s\<lparr>position := position ?s + c\<rparr>)"
    using assms c0 p1 by (intro read_accepted) simp_all
  have a: "read_u8 (m, mem') = (mk, (m\<lparr>sr := ?s\<rparr>, mem'))"
    using r1 f1 by (simp add: read_u8_def on_sr_def sr_read_u8_def read_pod_def Let_def deref_def store_whole)
  have b: "fst (on_sr (\<lambda>s mm. (read_pod s mm False :: 'a word \<times> StreamReader)) (m\<lparr>sr := ?s\<rparr>, mem'))
      = of_le bytes"
    using r2 f2 p1 assms(4,9)
    by (simp add: on_sr_def read_pod_def Let_def deref_def store_whole assms(6) ck)
  from a b show ?thesis by simp
qed

lemma decode_posfixint:
  assumes "fst (read_u8 st) = raw" and "raw AND 0x80 = 0"
  shows "marker (fst (decode_single st)) = PosFixInt \<and> as_u8 (fst (decode_single st)) = raw AND 0x7f"
proof -
  have sw: "size_dr (fst (decode_switch (decode_init raw) (snd (read_u8 st)))) = 0
      \<and> length (result (fst (decode_switch (decode_init raw) (snd (read_u8 st))))) = 32"
    using assms(2)
    by (auto simp: decode_switch_def Let_def decode_init_def put_result_def MPMarker_defs
        store_def length_to_le)
  have fx: "is_fixext raw = False"
    using assms(2) by (auto simp: is_fixext_def MPMarker_defs)
  show ?thesis
    using assms sw fx
    by (simp add: decode_single_def Let_def decode_edge_def put_result_def as_u8_def store_def)
qed

section \<open>The decoder, marker by marker\<close>

lemma decode_init_fields: "marker (decode_init mk) = mk" "size_dr (decode_init mk) = 0"
  by (simp_all add: decode_init_def put_result_def)

lemma decode_uint8:
  assumes "read_u8 st = (Uint8, st1)" and "fst (read_u8 st1) = y"
  shows "marker (fst (decode_single st)) = Uint8 \<and> as_u8 (fst (decode_single st)) = y"
proof -
  have sw: "fst (decode_switch (decode_init Uint8) st1)
      = put_result 0 (to_le 1 y) ((decode_init Uint8)\<lparr>size_dr := 1\<rparr>)"
    using assms(2)
    by (simp add: decode_switch_def Let_def decode_init_fields MPMarker_defs)
  have fx: "\<not> size_dr (put_result 0 (to_le 1 y) ((decode_init Uint8)\<lparr>size_dr := 1\<rparr>)) = 0"
    by (simp add: put_result_def)
  show ?thesis
    using assms(1) take_store_0 [of "[y]" "result (decode_init Uint8)"]
    by (simp add: decode_single_def Let_def sw decode_edge_def fx)
       (simp add: put_result_def as_u8_def decode_init_fields length_result_init)
qed

lemma decode_uint16:
  assumes "read_u8 st = (Uint16, st1)" and "fst (on_sr sr_read_u16 st1) = y"
  shows "marker (fst (decode_single st)) = Uint16
       \<and> as_u16 (fst (decode_single st)) = bswap_intrin16 y"
proof -
  have sw: "fst (decode_switch (decode_init Uint16) st1)
      = put_result 0 (to_le 2 (bswap_intrin16 y)) ((decode_init Uint16)\<lparr>size_dr := 2\<rparr>)"
    using assms(2)
    by (simp add: decode_switch_def Let_def decode_init_fields MPMarker_defs read_u16_def)
  have fx: "\<not> size_dr (put_result 0 (to_le 2 (bswap_intrin16 y)) ((decode_init Uint16)\<lparr>size_dr := 2\<rparr>)) = 0"
    by (simp add: put_result_def)
  show ?thesis
    using assms(1) take_store_0 [of "to_le 2 (bswap_intrin16 y)" "result (decode_init Uint16)"]
    by (simp add: decode_single_def Let_def sw decode_edge_def fx)
       (simp add: put_result_def as_u16_def decode_init_fields length_result_init length_to_le
          of_le_to_le_full)
qed

lemma decode_uint32:
  assumes "read_u8 st = (Uint32, st1)" and "fst (on_sr sr_read_u32 st1) = y"
  shows "marker (fst (decode_single st)) = Uint32
       \<and> as_u32 (fst (decode_single st)) = bswap_intrin32 y"
proof -
  have sw: "fst (decode_switch (decode_init Uint32) st1)
      = put_result 0 (to_le 4 (bswap_intrin32 y)) ((decode_init Uint32)\<lparr>size_dr := 4\<rparr>)"
    using assms(2)
    by (simp add: decode_switch_def Let_def decode_init_fields MPMarker_defs read_u32_def)
  have fx: "\<not> size_dr (put_result 0 (to_le 4 (bswap_intrin32 y)) ((decode_init Uint32)\<lparr>size_dr := 4\<rparr>)) = 0"
    by (simp add: put_result_def)
  show ?thesis
    using assms(1) take_store_0 [of "to_le 4 (bswap_intrin32 y)" "result (decode_init Uint32)"]
    by (simp add: decode_single_def Let_def sw decode_edge_def fx)
       (simp add: put_result_def as_u32_def decode_init_fields length_result_init length_to_le
          of_le_to_le_full)
qed

lemma decode_uint64:
  assumes "read_u8 st = (Uint64, st1)" and "fst (on_sr sr_read_u64 st1) = y"
  shows "marker (fst (decode_single st)) = Uint64 \<and> as_u64 (fst (decode_single st)) = y"
proof -
  have sw: "fst (decode_switch (decode_init Uint64) st1)
      = put_result 0 (to_le 8 y) ((decode_init Uint64)\<lparr>size_dr := 8\<rparr>)"
    using assms(2)
    by (simp add: decode_switch_def Let_def decode_init_fields MPMarker_defs)
  have fx: "\<not> size_dr (put_result 0 (to_le 8 y) ((decode_init Uint64)\<lparr>size_dr := 8\<rparr>)) = 0"
    by (simp add: put_result_def)
  show ?thesis
    using assms(1) take_store_0 [of "to_le 8 y" "result (decode_init Uint64)"]
    by (simp add: decode_single_def Let_def sw decode_edge_def fx)
       (simp add: put_result_def as_u64_def decode_init_fields length_result_init length_to_le
          of_le_to_le_full)
qed

lemma decode_switch_marker: "marker (fst (decode_switch dr st)) = marker dr"
  by (simp add: decode_switch_def Let_def put_result_def read_into_def)

lemma decode_switch_unsized:
  assumes "marker dr = FixArray \<or> marker dr = FixStr \<or> marker dr = Unused"
  shows "fst (decode_switch dr st) = dr"
proof -
  have "marker dr = FixArray \<Longrightarrow> ?thesis"
    by (simp add: decode_switch_def Let_def)
  moreover have "marker dr = FixStr \<Longrightarrow> ?thesis"
    by (simp add: decode_switch_def Let_def)
  moreover have "marker dr = Unused \<Longrightarrow> ?thesis"
    by (simp add: decode_switch_def Let_def MPMarker_defs)
  ultimately show ?thesis using assms by blast
qed

lemma single_bit_and:
  fixes w :: "'a::len word"
  assumes "w AND 2 ^ n \<noteq> 0"
  shows "w AND 2 ^ n = 2 ^ n"
proof -
  have "bit w n" using assms and_exp_eq_0_iff_not_bit [of w n] by blast
  then show ?thesis
    by (intro bit_word_eqI) (auto simp: bit_and_iff bit_exp_iff)
qed

lemma top_bit_set:
  fixes raw :: mp_u8
  assumes "raw AND 0x80 \<noteq> 0"
  shows "raw AND 0x80 = 0x80"
  using assms single_bit_and [of raw 7] by simp

lemma decode_edge_marker:
  assumes "is_fixext mk = False" and "size_dr dr = 0"
  shows "marker (fst (decode_edge raw mk dr st)) = PosFixInt
       \<or> marker (fst (decode_edge raw mk dr st)) = NegFixInt
       \<or> marker (fst (decode_edge raw mk dr st)) = FixMap"
  using assms top_bit_set [of raw]
  by (auto simp: decode_edge_def put_result_def)

lemma decode_single_never_fixarray_fixstr_unused:
  "marker (fst (decode_single st)) \<noteq> FixArray
   \<and> marker (fst (decode_single st)) \<noteq> FixStr
   \<and> marker (fst (decode_single st)) \<noteq> Unused"
proof -
  let ?raw = "fst (read_u8 st)"
  let ?sw = "decode_switch (decode_init ?raw) (snd (read_u8 st))"
  have d: "decode_single st = decode_edge ?raw ?raw (fst ?sw) (snd ?sw)"
    by (simp add: decode_single_def Let_def)
  show ?thesis
  proof (cases "?raw = FixArray \<or> ?raw = FixStr \<or> ?raw = Unused")
    case True
    then have "fst ?sw = decode_init ?raw"
      by (intro decode_switch_unsized) (simp add: decode_init_fields)
    then have s: "size_dr (fst ?sw) = 0" by (simp add: decode_init_fields)
    have f: "is_fixext ?raw = False" using True by (auto simp: is_fixext_def MPMarker_defs)
    from decode_edge_marker [OF f s, of ?raw "snd ?sw"] show ?thesis
      unfolding d by (auto simp: MPMarker_defs)
  next
    case False
    have m: "marker (fst ?sw) = ?raw" by (simp add: decode_switch_marker decode_init_fields)
    show ?thesis
    proof (cases "is_fixext ?raw = False \<and> size_dr (fst ?sw) = 0")
      case True
      from decode_edge_marker [of ?raw "fst ?sw" ?raw "snd ?sw"] True show ?thesis
        unfolding d by (auto simp: MPMarker_defs)
    next
      case nf: False
      then have "decode_edge ?raw ?raw (fst ?sw) (snd ?sw) = (fst ?sw, snd ?sw)"
        by (auto simp: decode_edge_def)
      with False m show ?thesis unfolding d by simp
    qed
  qed
qed

section \<open>The encoder of unsigned integers\<close>

lemma fits_take_bit:
  fixes v :: mp_u64
  shows "v < 2 ^ n \<Longrightarrow> take_bit n v = v"
  by (simp add: take_bit_eq_mask less_mask_eq)

lemma ucast_down_up:
  fixes v :: mp_u64
  assumes "take_bit n v = v" and "n \<le> LENGTH('b::len)"
  shows "(ucast (ucast v :: 'b word) :: mp_u64) = v"
proof (rule bit_word_eqI)
  fix k assume "k < LENGTH(64)"
  have "bit v k \<Longrightarrow> k < n"
    using assms(1) by (metis bit_take_bit_iff)
  then show "bit (ucast (ucast v :: 'b word) :: mp_u64) k = bit v k"
    using assms(2) \<open>k < LENGTH(64)\<close> by (auto simp: bit_simps)
qed

lemma low_byte: "(ucast ((ucast (b :: mp_u8) :: mp_u64) AND 0xff) :: mp_u8) = b"
proof -
  have e: "(0xff :: mp_u64) = mask 8" by (simp add: mask_eq_exp_minus_1)
  show ?thesis unfolding e by (rule bit_word_eqI) (auto simp: bit_simps)
qed

lemma low_u16: "(ucast ((ucast (x :: mp_u16) :: mp_u64) AND 0xffff) :: mp_u16) = x"
proof -
  have e: "(0xffff :: mp_u64) = mask 16" by (simp add: mask_eq_exp_minus_1)
  show ?thesis unfolding e by (rule bit_word_eqI) (auto simp: bit_simps)
qed

lemma low_u32: "(ucast ((ucast (x :: mp_u32) :: mp_u64) AND 0xffffffff) :: mp_u32) = x"
proof -
  have e: "(0xffffffff :: mp_u64) = mask 32" by (simp add: mask_eq_exp_minus_1)
  show ?thesis unfolding e by (rule bit_word_eqI) (auto simp: bit_simps)
qed

lemma write_u8_bytes:
  "write_u8 b st = on_wr (\<lambda>s mm. write_pod s mm b) (write_marker Uint8 st)"
  by (simp add: write_u8_def write_raw_value_def MPMarker_defs low_byte wr_write_u8_def)

lemma write_u16_bytes:
  "write_u16 x st = on_wr (\<lambda>s mm. write_pod s mm (bswap_intrin16 x)) (write_marker Uint16 st)"
  by (simp add: write_u16_def write_raw_value_def MPMarker_defs low_u16 wr_write_u16_def)

lemma write_u32_bytes:
  "write_u32 x st = on_wr (\<lambda>s mm. write_pod s mm (bswap_intrin32 x)) (write_marker Uint32 st)"
  by (simp add: write_u32_def write_raw_value_def MPMarker_defs low_u32 wr_write_u32_def)

lemma write_u64_bytes:
  "write_u64 v st = on_wr (\<lambda>s mm. write_pod s mm (bswap_intrin64 v)) (write_marker Uint64 st)"
  by (simp add: write_u64_def write_raw_value_def MPMarker_defs wr_write_u64_def)

lemma posfixint_byte:
  fixes v :: mp_u64
  assumes "v \<le> 127"
  shows "write_uint v st = on_wr (\<lambda>s mm. wr_write_u8 s mm (ucast v)) st"
    and "(ucast v :: mp_u8) AND 0x80 = 0"
    and "(ucast ((ucast v :: mp_u8) AND 0x7f) :: mp_u64) = v"
proof -
  have m: "(127 :: mp_u64) = mask 7" "(0x7f :: mp_u64) = mask 7" "(0x7f :: mp_u8) = mask 7"
    by (simp_all add: mask_eq_exp_minus_1)
  have "v < 2 ^ 7" using assms by (simp add: word_le_nat_alt word_less_nat_alt)
  then have t: "take_bit 7 v = v" by (rule fits_take_bit)
  have b: "\<And>k. bit v k \<Longrightarrow> k < 7" using t by (metis bit_take_bit_iff)
  have e: "(ucast ((ucast (ucast (v AND 0x7f) :: mp_u8) :: mp_u64) AND 0x7f) :: mp_u8) = ucast v"
    unfolding m by (rule bit_word_eqI) (auto simp: bit_simps dest: b)
  show "write_uint v st = on_wr (\<lambda>s mm. wr_write_u8 s mm (ucast v)) st"
    using assms e
    by (simp add: write_uint_def PosFixIntMax_def write_posfixint_def write_raw_value_def
        MPMarker_defs)
  have h: "(0x80 :: mp_u8) = 2 ^ 7" by simp
  have h7: "\<And>k. bit (0x80 :: mp_u8) k \<Longrightarrow> k = 7"
    by (simp only: h bit_exp_iff)
  show "(ucast v :: mp_u8) AND 0x80 = 0"
  proof (rule bit_word_eqI)
    fix k assume "k < LENGTH(8)"
    have "\<not> (bit (ucast v :: mp_u8) k \<and> bit (0x80 :: mp_u8) k)"
    proof
      assume c: "bit (ucast v :: mp_u8) k \<and> bit (0x80 :: mp_u8) k"
      then have "bit v k" by (simp add: bit_ucast_iff)
      then have "k < 7" by (rule b)
      moreover have "k = 7" using c h7 by blast
      ultimately show False by simp
    qed
    then show "bit ((ucast v :: mp_u8) AND 0x80) k = bit (0 :: mp_u8) k"
      by (simp add: bit_and_iff)
  qed
  show "(ucast ((ucast v :: mp_u8) AND 0x7f) :: mp_u64) = v"
    unfolding m by (rule bit_word_eqI) (auto simp: bit_simps dest: b)
qed

text \<open>The round trip of \<^verbatim>\<open>write_uint\<close>, on a codec with room for nine bytes.\<close>

lemma write_uint_round_trip:
  fixes m :: MessagePack and v :: mp_u64
  assumes "position (sr m) = position (wr m)"
    and "stream_size (sr m) = stream_size (wr m)"
    and "reader (sr m) = Memcpy" and "writer (wr m) = Memcpy"
    and "buffer (sr m) = Buf" and "buffer (wr m) = Buf"
    and "unat (position (wr m)) + 9 \<le> unat (stream_size (wr m))"
    and "unat (stream_size (wr m)) \<le> length mem"
  defines "dr \<equiv> fst (decode_single (write_uint v (m, mem)))"
  shows "(v \<le> 127 \<longrightarrow> marker dr = PosFixInt \<and> ucast (as_u8 dr) = v)
       \<and> (127 < v \<and> v \<le> 255 \<longrightarrow> marker dr = Uint8 \<and> ucast (as_u8 dr) = v)
       \<and> (255 < v \<and> v \<le> 65535 \<longrightarrow> marker dr = Uint16 \<and> ucast (as_u16 dr) = v)
       \<and> (65535 < v \<and> v \<le> 4294967295 \<longrightarrow> marker dr = Uint32 \<and> ucast (as_u32 dr) = v)
       \<and> (4294967295 < v \<longrightarrow> marker dr = Uint64 \<and> as_u64 dr = bswap_intrin64 v)"
proof -
  let ?p = "unat (position (wr m))"
  have one: "1 < stream_size (wr m)" "?p < unat (stream_size (wr m))"
    using assms(7) by (simp_all add: word_less_nat_alt)
  have P: "v \<le> 127 \<Longrightarrow> marker dr = PosFixInt \<and> ucast (as_u8 dr) = v"
  proof -
    assume le: "v \<le> 127"
    have "fst (read_u8 (write_uint v (m, mem))) = ucast v"
      unfolding posfixint_byte(1) [OF le]
      by (rule write_byte_then_read [OF assms(1-6) one assms(8)])
    from decode_posfixint [OF this posfixint_byte(2) [OF le]] posfixint_byte(3) [OF le]
    show ?thesis by (simp add: dr_def)
  qed
  have rd: "reader (sr (m\<lparr>wr := w'\<rparr>)) = Memcpy" "buffer (sr (m\<lparr>wr := w'\<rparr>)) = Buf"
    "position (sr (m\<lparr>wr := w'\<rparr>)) = position (wr m)"
    "stream_size (sr (m\<lparr>wr := w'\<rparr>)) = stream_size (wr m)" for w'
    using assms(1,2,3,5) by simp_all
  have B: "\<exists>st1. read_u8 (on_wr (\<lambda>s mm. write_pod s mm x) (write_marker mk (m, mem))) = (mk, st1)
            \<and> fst (on_sr (\<lambda>s mm. (read_pod s mm False :: 'a word \<times> StreamReader)) st1)
                = of_le (to_le k x)"
    if "(of_nat (LENGTH('a) div 8) :: mp_u32) = c" "unat c = k" "0 < k" "LENGTH('a) div 8 = k" "k \<le> 8"
    for x :: "'a::len word" and mk c k
  proof -
    have room: "?p + 1 + k \<le> unat (stream_size (wr m))" using assms(7) that(5) by simp
    note w = marker_then_pod_written [OF assms(4) assms(6) that(1-4) room, of x mk mem]
    let ?m = "m\<lparr>wr := (wr m)\<lparr>position := position (wr m) + 1 + c\<rparr>\<rparr>"
    have room': "unat (position (sr ?m)) + 1 + k \<le> unat (stream_size (sr ?m))"
      using room assms(1,2) by simp
    have len: "unat (stream_size (sr ?m)) \<le> length mem" using assms(2,8) by simp
    from marker_then_pod_read [where 'a = 'a, OF rd(1) rd(2) that(1-4) room' len length_to_le,
        of "store (?p + 1) (to_le k x) (store ?p [mk] mem)" x mk]
    show ?thesis unfolding w by (auto simp: assms(1))
  qed
  have U8: "127 < v \<and> v \<le> 255 \<Longrightarrow> marker dr = Uint8 \<and> ucast (as_u8 dr) = v"
  proof -
    assume r: "127 < v \<and> v \<le> 255"
    then have n: "\<not> v \<le> 127" by (simp add: word_le_nat_alt word_less_nat_alt)
    from r have "v < 2 ^ 8" by (simp add: word_le_nat_alt word_less_nat_alt)
    then have t: "take_bit 8 v = v" by (rule fits_take_bit)
    have w: "write_uint v (m, mem)
        = on_wr (\<lambda>s mm. write_pod s mm (ucast v :: mp_u8)) (write_marker Uint8 (m, mem))"
      using r n by (simp add: write_uint_def PosFixIntMax_def uint8_max_def write_u8_bytes)
    from B [of 1 1 "ucast v :: mp_u8" Uint8]
    obtain st1 where a: "read_u8 (write_uint v (m, mem)) = (Uint8, st1)"
      and b: "fst (on_sr (\<lambda>s mm. (read_pod s mm False :: mp_u8 \<times> StreamReader)) st1)
          = of_le (to_le 1 (ucast v :: mp_u8))"
      unfolding w by auto
    have b': "fst (read_u8 st1) = (ucast v :: mp_u8)"
      using b by (simp add: read_u8_def sr_read_u8_def on_sr_def)
    from decode_uint8 [OF a b'] ucast_down_up [OF t, where 'b = 8]
    show ?thesis by (simp add: dr_def)
  qed
  have U16: "255 < v \<and> v \<le> 65535 \<Longrightarrow> marker dr = Uint16 \<and> ucast (as_u16 dr) = v"
  proof -
    assume r: "255 < v \<and> v \<le> 65535"
    then have n: "\<not> v \<le> 127" "\<not> v \<le> 255"
      by (simp_all add: word_le_nat_alt word_less_nat_alt)
    from r have "v < 2 ^ 16" by (simp add: word_le_nat_alt word_less_nat_alt)
    then have t: "take_bit 16 v = v" by (rule fits_take_bit)
    have w: "write_uint v (m, mem)
        = on_wr (\<lambda>s mm. write_pod s mm (bswap_intrin16 (ucast v))) (write_marker Uint16 (m, mem))"
      using r n
      by (simp add: write_uint_def PosFixIntMax_def uint8_max_def uint16_max_def write_u16_bytes)
    from B [of 2 2 "bswap_intrin16 (ucast v)" Uint16]
    obtain st1 where a: "read_u8 (write_uint v (m, mem)) = (Uint16, st1)"
      and b: "fst (on_sr (\<lambda>s mm. (read_pod s mm False :: mp_u16 \<times> StreamReader)) st1)
          = of_le (to_le 2 (bswap_intrin16 (ucast v)))"
      unfolding w by auto
    have b': "fst (on_sr sr_read_u16 st1) = bswap_intrin16 (ucast v)"
      using b by (simp add: sr_read_u16_def of_le_to_le_full on_sr_def)
    from decode_uint16 [OF a b'] ucast_down_up [OF t, where 'b = 16]
    show ?thesis by (simp add: dr_def bswap16_bswap16)
  qed
  have U32: "65535 < v \<and> v \<le> 4294967295 \<Longrightarrow> marker dr = Uint32 \<and> ucast (as_u32 dr) = v"
  proof -
    assume r: "65535 < v \<and> v \<le> 4294967295"
    then have n: "\<not> v \<le> 127" "\<not> v \<le> 255" "\<not> v \<le> 65535"
      by (simp_all add: word_le_nat_alt word_less_nat_alt)
    from r have "v < 2 ^ 32" by (simp add: word_le_nat_alt word_less_nat_alt)
    then have t: "take_bit 32 v = v" by (rule fits_take_bit)
    have w: "write_uint v (m, mem)
        = on_wr (\<lambda>s mm. write_pod s mm (bswap_intrin32 (ucast v))) (write_marker Uint32 (m, mem))"
      using r n
      by (simp add: write_uint_def PosFixIntMax_def uint8_max_def uint16_max_def uint32_max_def
          write_u32_bytes)
    from B [of 4 4 "bswap_intrin32 (ucast v)" Uint32]
    obtain st1 where a: "read_u8 (write_uint v (m, mem)) = (Uint32, st1)"
      and b: "fst (on_sr (\<lambda>s mm. (read_pod s mm False :: mp_u32 \<times> StreamReader)) st1)
          = of_le (to_le 4 (bswap_intrin32 (ucast v)))"
      unfolding w by auto
    have b': "fst (on_sr sr_read_u32 st1) = bswap_intrin32 (ucast v)"
      using b by (simp add: sr_read_u32_def of_le_to_le_full on_sr_def)
    from decode_uint32 [OF a b'] ucast_down_up [OF t, where 'b = 32]
    show ?thesis by (simp add: dr_def bswap32_bswap32)
  qed
  have U64: "4294967295 < v \<Longrightarrow> marker dr = Uint64 \<and> as_u64 dr = bswap_intrin64 v"
  proof -
    assume r: "4294967295 < v"
    then have n: "\<not> v \<le> 127" "\<not> v \<le> 255" "\<not> v \<le> 65535" "\<not> v \<le> 4294967295"
      by (simp_all add: word_le_nat_alt word_less_nat_alt)
    have w: "write_uint v (m, mem)
        = on_wr (\<lambda>s mm. write_pod s mm (bswap_intrin64 v)) (write_marker Uint64 (m, mem))"
      using r n
      by (simp add: write_uint_def PosFixIntMax_def uint8_max_def uint16_max_def uint32_max_def
          write_u64_bytes)
    from B [of 8 8 "bswap_intrin64 v" Uint64]
    obtain st1 where a: "read_u8 (write_uint v (m, mem)) = (Uint64, st1)"
      and b: "fst (on_sr (\<lambda>s mm. (read_pod s mm False :: mp_u64 \<times> StreamReader)) st1)
          = of_le (to_le 8 (bswap_intrin64 v))"
      unfolding w by auto
    have b': "fst (on_sr sr_read_u64 st1) = bswap_intrin64 v"
      using b by (simp add: sr_read_u64_def of_le_to_le_full on_sr_def)
    from decode_uint64 [OF a b'] show ?thesis by (simp add: dr_def)
  qed
  from P U8 U16 U32 U64 show ?thesis by blast
qed

section \<open>Headers of variable length\<close>

text \<open>A tag byte and the length field behind it, read from the bytes of the buffer.\<close>

lemma tag_then_field_read:
  fixes m :: MessagePack
  assumes "reader (sr m) = Memcpy" and "buffer (sr m) = Buf"
    and "(of_nat (LENGTH('a::len) div 8) :: mp_u32) = c" and "unat c = k" and "0 < k"
    and "LENGTH('a) div 8 = k"
    and "unat (position (sr m)) + 1 + k \<le> unat (stream_size (sr m))"
    and "length bytes = k"
    and "fetch (unat (position (sr m))) (Suc k) mem = raw # bytes"
  shows "read_u8 (m, mem) = (raw, (m\<lparr>sr := (sr m)\<lparr>position := position (sr m) + 1\<rparr>\<rparr>, mem))
       \<and> fst (on_sr (\<lambda>s mm. (read_pod s mm False :: 'a word \<times> StreamReader))
              (m\<lparr>sr := (sr m)\<lparr>position := position (sr m) + 1\<rparr>\<rparr>, mem)) = of_le bytes"
proof -
  let ?p = "unat (position (sr m))"
  have p1: "unat (position (sr m) + 1) = ?p + 1"
    using unat_advance [of "position (sr m)" 1 "stream_size (sr m)"] assms(7) by simp
  have c0: "c \<noteq> 0" using assms(4,5) by auto
  have ck: "(of_nat k :: mp_u32) = c" using assms(3,6) by simp
  have "fetch ?p (Suc 0) mem = take (Suc 0) (fetch ?p (Suc k) mem)"
    by (simp add: fetch_def min_def)
  then have f1: "fetch ?p (Suc 0) mem = [raw]" by (simp add: assms(9))
  have "fetch (?p + 1) k mem = drop (Suc 0) (fetch ?p (Suc k) mem)"
    by (simp add: fetch_def drop_take)
  then have f2: "fetch (?p + 1) k mem = bytes" by (simp add: assms(9))
  have one: "(1 :: mp_u32) \<noteq> 0" "unat (1 :: mp_u32) < unat (stream_size (sr m))"
    "?p + unat (1 :: mp_u32) \<le> unat (stream_size (sr m))"
    using assms(5,7) by simp_all
  have r1: "read_and_advance (sr m) mem 1 (Some [0]) False
      = (Some (store 0 (fetch ?p (unat (1 :: mp_u32)) mem) [0]),
         (sr m)\<lparr>position := position (sr m) + 1\<rparr>)"
    by (rule read_accepted [OF assms(1) assms(2) one])
  let ?s = "(sr m)\<lparr>position := position (sr m) + 1\<rparr>"
  have r2: "read_and_advance ?s mem c (Some (replicate k 0)) False
      = (Some (store 0 (fetch (unat (position ?s)) (unat c) mem) (replicate k 0)),
         ?s\<lparr>position := position ?s + c\<rparr>)"
    using assms c0 p1 by (intro read_accepted) simp_all
  have a: "read_u8 (m, mem) = (raw, (m\<lparr>sr := ?s\<rparr>, mem))"
    using r1 f1
    by (simp add: read_u8_def on_sr_def sr_read_u8_def read_pod_def Let_def deref_def store_whole)
  have b: "fst (on_sr (\<lambda>s mm. (read_pod s mm False :: 'a word \<times> StreamReader)) (m\<lparr>sr := ?s\<rparr>, mem))
      = of_le bytes"
    using r2 f2 p1 assms(4,8)
    by (simp add: on_sr_def read_pod_def Let_def deref_def store_whole assms(6) ck)
  from a b show ?thesis by simp
qed

lemma bswap_zero:
  "bswap_intrin16 0 = 0" "bswap_intrin32 0 = 0"
  by (simp_all add: bswap_intrin16_def bswap_intrin32_def eval_nat_numeral)

text \<open>The size that the switch leaves for each variable-length tag, by the value read.\<close>

lemma switch_size_8:
  assumes "mk = Str8 \<or> mk = Bin8 \<or> mk = Ext8" and "fst (read_u8 st1) = y"
  shows "size_dr (fst (decode_switch (decode_init mk) st1)) = ucast y"
  using assms by (auto simp: decode_switch_def Let_def decode_init_fields MPMarker_defs)

lemma switch_size_16_swapped:
  assumes "mk = Str16 \<or> mk = Bin16 \<or> mk = Ext16" and "fst (on_sr sr_read_u16 st1) = y"
  shows "size_dr (fst (decode_switch (decode_init mk) st1)) = ucast (bswap_intrin16 y)"
  using assms
  by (auto simp: decode_switch_def Let_def decode_init_fields MPMarker_defs read_u16_def)

lemma switch_size_16_host:
  assumes "mk = Array16 \<or> mk = Map16" and "fst (on_sr sr_read_u16 st1) = y"
  shows "size_dr (fst (decode_switch (decode_init mk) st1)) = ucast y"
  using assms by (auto simp: decode_switch_def Let_def decode_init_fields MPMarker_defs)

lemma switch_size_32_swapped:
  assumes "mk = Str32 \<or> mk = Bin32 \<or> mk = Ext32" and "fst (on_sr sr_read_u32 st1) = y"
  shows "size_dr (fst (decode_switch (decode_init mk) st1)) = bswap_intrin32 y"
  using assms
  by (auto simp: decode_switch_def Let_def decode_init_fields MPMarker_defs read_u32_def)

lemma switch_size_32_host:
  assumes "mk = Array32 \<or> mk = Map32" and "fst (on_sr sr_read_u32 st1) = y"
  shows "size_dr (fst (decode_switch (decode_init mk) st1)) = y"
  using assms by (auto simp: decode_switch_def Let_def decode_init_fields MPMarker_defs)

lemma zero_size_after_switch_decodes_as_fixmap:
  assumes "fst (read_u8 st) = raw"
    and "raw \<in> {Str8, Bin8, Str16, Bin16, Str32, Bin32, Ext8, Ext16, Ext32,
                 Array16, Map16, Array32, Map32}"
    and "size_dr (fst (decode_switch (decode_init raw) (snd (read_u8 st)))) = 0"
  shows "marker (fst (decode_single st)) = FixMap
       \<and> size_dr (fst (decode_single st)) = ucast (raw AND 0x0F)
       \<and> marker (fst (decode_single st)) \<noteq> raw"
proof -
  have e: "decode_single st
      = decode_edge raw raw (fst (decode_switch (decode_init raw) (snd (read_u8 st))))
          (snd (decode_switch (decode_init raw) (snd (read_u8 st))))"
    using assms(1) by (simp add: decode_single_def Let_def)
  have f: "is_fixext raw = False" "raw AND 0x80 = 0x80" "raw AND 0xe0 \<noteq> 0xe0" "raw \<noteq> FixMap"
    using assms(2) by (auto simp: is_fixext_def MPMarker_defs)
  show ?thesis
    unfolding e using f assms(3) by (simp add: decode_edge_def)
qed

section \<open>The claims\<close>

text \<open>
  C1. Every byte that reaches the compact-range resolution of \<^verbatim>\<open>decode_single\<close> is
  classified in priority order as PosFixInt, NegFixInt, FixMap (0x80-0x8F), FixArray
  (0x90-0x9F, count \<^verbatim>\<open>raw & 0x0F\<close>) or FixStr (0xA0-0xBF, length \<^verbatim>\<open>raw & 0x1F\<close>, payload
  read into the inline buffer); in particular \<^verbatim>\<open>start_array(3)\<close> followed by
  \<^verbatim>\<open>decode_single\<close> yields FixArray with size 3.

  The code does otherwise. The test \<^verbatim>\<open>( raw & 0x80 ) == 0x80\<close> of the FixMap branch holds
  for every byte with the top bit set, so the FixArray and FixStr branches below it are
  never taken (lemma \<open>decode_single_never_fixarray_fixstr_unused\<close>: no state of the
  codec decodes to FixArray or FixStr). After \<^verbatim>\<open>start_array(3)\<close> the byte 0x93 decodes as
  FixMap with size 3, and the FixStr byte 0xA3 decodes as FixMap with size 3 with no
  payload byte read.
\<close>

theorem fixarray_and_fixstr_decode_as_fixmap:
  "marker (fst (decode_single (start_array 3 (fresh 16)))) = FixMap
   \<and> size_dr (fst (decode_single (start_array 3 (fresh 16)))) = 3
   \<and> take 1 (snd (start_array 3 (fresh 16))) = [0x93]
   \<and> marker (fst (decode_single (initialize_streams 0 8 Buf Memcpy Memcpy,
        [0xa3, 0x61, 0x62, 0x63, 0, 0, 0, 0]))) = FixMap
   \<and> size_dr (fst (decode_single (initialize_streams 0 8 Buf Memcpy Memcpy,
        [0xa3, 0x61, 0x62, 0x63, 0, 0, 0, 0]))) = 3
   \<and> read_cursor (fst (snd (decode_single (initialize_streams 0 8 Buf Memcpy Memcpy,
        [0xa3, 0x61, 0x62, 0x63, 0, 0, 0, 0])))) = 1"
  by code_simp

text \<open>
  C2. When the next byte of the stream is the reserved code point 0xC1,
  \<^verbatim>\<open>decode_single\<close> returns marker Unused with size 0, the one failure sentinel of the
  decoder.

  The code does otherwise. The switch leaves the size of 0xC1 at 0, so the byte enters
  the compact-range resolution, whose FixMap test holds for it: the result is FixMap
  with size 1. The same happens to the Float32 tag 0xCA, reported as FixMap with
  size 10. No state of the codec decodes to Unused (lemma
  \<open>decode_single_never_fixarray_fixstr_unused\<close>).
\<close>

theorem unused_byte_decodes_as_fixmap:
  "marker (fst (decode_single (initialize_streams 0 8 Buf Memcpy Memcpy,
        [0xc1, 0, 0, 0, 0, 0, 0, 0]))) = FixMap
   \<and> size_dr (fst (decode_single (initialize_streams 0 8 Buf Memcpy Memcpy,
        [0xc1, 0, 0, 0, 0, 0, 0, 0]))) = 1
   \<and> marker (fst (decode_single (initialize_streams 0 8 Buf Memcpy Memcpy,
        [0xca, 0, 0, 0, 0, 0, 0, 0]))) = FixMap
   \<and> size_dr (fst (decode_single (initialize_streams 0 8 Buf Memcpy Memcpy,
        [0xca, 0, 0, 0, 0, 0, 0, 0]))) = 10"
  by code_simp

text \<open>
  C3. For every unsigned 64-bit \<open>v\<close>, \<^verbatim>\<open>write_uint\<close> followed by \<^verbatim>\<open>decode_single\<close> yields
  the marker of the smallest representation (PosFixInt, Uint8, Uint16, Uint32, Uint64)
  and the decoded value equals \<open>v\<close>.

  The code does otherwise for values above \<open>2^32 - 1\<close>. The encoder writes the eight
  bytes big-endian, and the Uint64 case of the decoder reads them with the stream's
  \<^verbatim>\<open>sr_.read_u64( )\<close>, which does not swap the bytes, where the Uint16, Uint32 and Int64
  cases call the swapping reads of the codec. For \<open>v = 2^32\<close> the marker is Uint64 and
  the value read is \<open>2^24\<close>. Lemma \<open>write_uint_round_trip\<close> has the whole picture: the
  markers are those of the claim, the value is \<open>v\<close> up to \<open>2^32 - 1\<close>, and above it is
  \<open>v\<close> with its bytes reversed.
\<close>

theorem uint64_decodes_byte_swapped:
  "marker (fst (decode_single (write_uint 4294967296 (fresh 16)))) = Uint64
   \<and> as_u64 (fst (decode_single (write_uint 4294967296 (fresh 16)))) = 16777216
   \<and> take 9 (snd (write_uint 4294967296 (fresh 16))) = [0xcf, 0, 0, 0, 1, 0, 0, 0, 0]"
  by code_simp

text \<open>
  C4. \<^verbatim>\<open>start_array(n)\<close> and \<^verbatim>\<open>start_map(n)\<close> pick the fix form for \<open>n \<le> 15\<close>, the 16-bit
  form for \<open>n \<le> 65535\<close> and the 32-bit form otherwise, with a big-endian count.

  \<^verbatim>\<open>start_array\<close> does; \<^verbatim>\<open>start_map\<close> compares with \<^verbatim>\<open>Map16Max\<close> and \<^verbatim>\<open>Map32Max\<close> where
  \<^verbatim>\<open>start_array\<close> compares with \<^verbatim>\<open>FixArrayMax\<close> and \<^verbatim>\<open>Array16Max\<close>. For 16 pairs it writes
  the single byte 0x80, a FixMap of no pair, where \<^verbatim>\<open>start_array(16)\<close> writes DC 00 10;
  for 65536 pairs it writes a Map16 header with count 0.
\<close>

theorem start_map_16_writes_empty_fixmap:
  "snd (start_map 16 (fresh 8)) = [0x80, 0, 0, 0, 0, 0, 0, 0]
   \<and> write_cursor (fst (start_map 16 (fresh 8))) = 1
   \<and> snd (start_array 16 (fresh 8)) = [0xdc, 0x00, 0x10, 0, 0, 0, 0, 0]
   \<and> snd (start_map 65536 (fresh 8)) = [0xde, 0, 0, 0, 0, 0, 0, 0]
   \<and> write_cursor (fst (start_map 65536 (fresh 8))) = 3"
  by code_simp

text \<open>
  C5. For \<open>15 < n \<le> 65535\<close> (respectively \<open>n > 65535\<close>), \<^verbatim>\<open>start_array(n)\<close> followed by
  \<^verbatim>\<open>decode_single\<close> yields Array16 (respectively Array32) with size \<open>n\<close>: the count is
  written big-endian and read back big-endian.

  The code writes the count big-endian and reads it back with \<^verbatim>\<open>sr_.read_u16( )\<close> and
  \<^verbatim>\<open>sr_.read_u32( )\<close>, the reads of the stream, which do not swap the bytes; the Str, Bin
  and Ext cases call the swapping reads of the codec. For \<open>n = 16\<close> the marker is Array16
  and the size is 4096; for \<open>n = 65536\<close> the marker is Array32 and the size is 256.
\<close>

theorem array16_count_decodes_byte_swapped:
  "marker (fst (decode_single (start_array 16 (fresh 16)))) = Array16
   \<and> size_dr (fst (decode_single (start_array 16 (fresh 16)))) = 4096
   \<and> take 3 (snd (start_array 16 (fresh 16))) = [0xdc, 0x00, 0x10]
   \<and> marker (fst (decode_single (start_array 65536 (fresh 16)))) = Array32
   \<and> size_dr (fst (decode_single (start_array 65536 (fresh 16)))) = 256
   \<and> take 5 (snd (start_array 65536 (fresh 16))) = [0xdd, 0x00, 0x01, 0x00, 0x00]"
  by code_simp

text \<open>
  C6. Fixint boundary. On a codec whose two streams stand at the same position of a
  bound buffer with room for one byte: \<^verbatim>\<open>write_fixint(127)\<close> then \<^verbatim>\<open>decode_single\<close> yields
  PosFixInt with value 127; \<^verbatim>\<open>write_fixint(-20)\<close> yields NegFixInt with value -20;
  \<^verbatim>\<open>write_fixint(-33)\<close> yields NegFixInt with value -1, because \<^verbatim>\<open>write_negfixint\<close> stores
  the low five bits of the value OR'd with 0xE0, whatever the value.
\<close>

theorem fixint_boundary:
  fixes m :: MessagePack
  assumes "position (sr m) = position (wr m)"
    and "stream_size (sr m) = stream_size (wr m)"
    and "reader (sr m) = Memcpy" and "writer (wr m) = Memcpy"
    and "buffer (sr m) = Buf" and "buffer (wr m) = Buf"
    and "1 < stream_size (wr m)"
    and "unat (position (wr m)) < unat (stream_size (wr m))"
    and "unat (stream_size (wr m)) \<le> length mem"
  shows "marker (fst (decode_single (write_fixint 127 (m, mem)))) = PosFixInt
       \<and> as_u8 (fst (decode_single (write_fixint 127 (m, mem)))) = 127
       \<and> marker (fst (decode_single (write_fixint (- 20) (m, mem)))) = NegFixInt
       \<and> sint (as_i8 (fst (decode_single (write_fixint (- 20) (m, mem))))) = - 20
       \<and> marker (fst (decode_single (write_fixint (- 33) (m, mem)))) = NegFixInt
       \<and> sint (as_i8 (fst (decode_single (write_fixint (- 33) (m, mem))))) = - 1
       \<and> snd (write_negfixint v (m, mem))
           = store (unat (position (wr m))) [0xe0 OR (v AND 0x1f)] mem"
proof -
  note rt = write_byte_then_read [OF assms]
  have a: "fst (read_u8 (write_fixint 127 (m, mem))) = 0x7f"
    unfolding write_fixint_127 by (rule rt)
  have b: "fst (read_u8 (write_fixint (- 20) (m, mem))) = 0xec"
    unfolding write_fixint_minus_20 by (rule rt)
  have c: "fst (read_u8 (write_fixint (- 33) (m, mem))) = 0xff"
    unfolding write_fixint_minus_33 by (rule rt)
  have d: "snd (write_negfixint v (m, mem))
      = store (unat (position (wr m))) [0xe0 OR (v AND 0x1f)] mem"
    unfolding write_negfixint_def
    by (simp add: write_byte [OF assms(4) assms(6) assms(7) assms(8)])
  from decode_byte_7f [OF a] decode_byte_ec [OF b] decode_byte_ff [OF c] d
  show ?thesis by simp
qed

theorem fixint_boundary_witness:
  "marker (fst (decode_single (write_fixint 127 (fresh 16)))) = PosFixInt
   \<and> as_u8 (fst (decode_single (write_fixint 127 (fresh 16)))) = 127
   \<and> marker (fst (decode_single (write_fixint (- 20) (fresh 16)))) = NegFixInt
   \<and> sint (as_i8 (fst (decode_single (write_fixint (- 20) (fresh 16))))) = - 20
   \<and> marker (fst (decode_single (write_fixint (- 33) (fresh 16)))) = NegFixInt
   \<and> sint (as_i8 (fst (decode_single (write_fixint (- 33) (fresh 16))))) = - 1
   \<and> snd (write_negfixint (- 33) (fresh 16)) = 0xff # replicate 15 0"
proof -
  let ?m = "initialize_streams 0 16 Buf Memcpy Memcpy"
  let ?mem = "replicate 16 (0 :: mp_u8)"
  have f: "fresh 16 = (?m, ?mem)" by (simp add: fresh_def)
  have h: "position (sr ?m) = position (wr ?m)" "stream_size (sr ?m) = stream_size (wr ?m)"
    "reader (sr ?m) = Memcpy" "writer (wr ?m) = Memcpy"
    "buffer (sr ?m) = Buf" "buffer (wr ?m) = Buf"
    "1 < stream_size (wr ?m)" "unat (position (wr ?m)) < unat (stream_size (wr ?m))"
    "unat (stream_size (wr ?m)) \<le> length ?mem"
    by (simp_all add: initialize_streams_def reader_set_def writer_set_def)
  have s: "store (unat (position (wr ?m))) [0xe0 OR ((- 33) AND 0x1f)] ?mem = 0xff # replicate 15 0"
    by code_simp
  from fixint_boundary [OF h, of "- 33"] s show ?thesis unfolding f by simp
qed

text \<open>
  C7. A read or a write of a stream is a complete no-op when the count is 0, or the
  source or destination pointer is null, or the count is at least the capacity, or
  position + count exceeds the capacity, or the stream has no copy function or no buffer
  bound: the stream (and with it the position), the buffer and the destination are
  returned as they were, nothing is written in part.
\<close>

theorem rejected_operation_is_noop:
  "(count = 0 \<or> dst = None \<or> stream_size r \<le> count
      \<or> unat (stream_size r) < unat (position r) + unat count
      \<or> reader r = NullFn \<or> buffer r = Null
    \<longrightarrow> read_and_advance r mem count dst peek = (dst, r)
        \<and> sr_read r mem count dst = (dst, r))
   \<and> (count = 0 \<or> src = None \<or> stream_size w \<le> count
      \<or> unat (stream_size w) < unat (position w) + unat count
      \<or> writer w = NullFn \<or> buffer w = Null
    \<longrightarrow> write_and_advance w mem count src = (w, mem)
        \<and> wr_write w mem count src = (w, mem))"
  by (simp add: sr_read_def wr_write_def read_guard_rejects write_guard_rejects)

theorem rejected_operation_is_noop_witness:
  "read_and_advance (reader_set 15 16 Buf Memcpy) (replicate 16 7) 4 (Some [1, 2, 3, 4]) False
     = (Some [1, 2, 3, 4], reader_set 15 16 Buf Memcpy)
   \<and> sr_read (reader_set 15 16 Buf Memcpy) (replicate 16 7) 4 (Some [1, 2, 3, 4])
     = (Some [1, 2, 3, 4], reader_set 15 16 Buf Memcpy)
   \<and> write_and_advance (writer_set 15 16 Buf Memcpy) (replicate 16 7) 4 (Some [1, 2, 3, 4])
     = (writer_set 15 16 Buf Memcpy, replicate 16 7)
   \<and> wr_write (writer_set 15 16 Buf Memcpy) (replicate 16 7) 4 (Some [1, 2, 3, 4])
     = (writer_set 15 16 Buf Memcpy, replicate 16 7)"
  using rejected_operation_is_noop [of 4 "Some [1, 2, 3, 4]" "reader_set 15 16 Buf Memcpy"
      "replicate 16 7" False "Some [1, 2, 3, 4]" "writer_set 15 16 Buf Memcpy"]
  by (simp add: reader_set_def writer_set_def)

text \<open>
  C8. A stream whose position is at most its capacity keeps that after every read and
  every write, and so after every sequence of them; an operation whose position + count
  exceeds the capacity is rejected with the stream and the buffer untouched, and no
  sequence of writes changes a byte at or beyond offset \<^verbatim>\<open>stream_size\<close>.
\<close>

theorem position_never_exceeds_stream_size:
  assumes "position r \<le> stream_size r" and "position w \<le> stream_size w"
  shows "position (snd (read_and_advance r mem count dst peek)) \<le> stream_size r
       \<and> position (fst (write_and_advance w mem count src)) \<le> stream_size w
       \<and> stream_size (run_reads r mem rops) = stream_size r
       \<and> position (run_reads r mem rops) \<le> stream_size r
       \<and> stream_size (fst (run_writes (w, mem) wops)) = stream_size w
       \<and> position (fst (run_writes (w, mem) wops)) \<le> stream_size w
       \<and> (unat (stream_size r) < unat (position r) + unat count
            \<longrightarrow> read_and_advance r mem count dst peek = (dst, r))
       \<and> (unat (stream_size w) < unat (position w) + unat count
            \<longrightarrow> write_and_advance w mem count src = (w, mem))
       \<and> (unat (stream_size w) \<le> length mem
            \<longrightarrow> drop (unat (stream_size w)) (snd (run_writes (w, mem) wops))
                = drop (unat (stream_size w)) mem)"
proof -
  have w': "position (fst (w, mem)) \<le> stream_size (fst (w, mem))" using assms(2) by simp
  from read_keeps_bound [OF assms(1), of mem count dst peek]
    write_keeps_bound [OF assms(2), of mem count src]
    run_reads_keeps_bound [OF assms(1), of mem rops]
    run_writes_keeps_bound [OF w', of wops]
    run_writes_beyond [of "(w, mem)" wops]
  show ?thesis by (simp add: read_guard_rejects write_guard_rejects)
qed

theorem position_never_exceeds_stream_size_witness:
  "position (snd (read_and_advance (reader_set 7 8 Buf Memcpy) [1, 2, 3, 4, 5, 6, 7, 8, 9]
        4 (Some [0, 0, 0, 0]) False)) \<le> 8
   \<and> position (fst (write_and_advance (writer_set 7 8 Buf Memcpy) [1, 2, 3, 4, 5, 6, 7, 8, 9]
        4 (Some [0, 0, 0, 0]))) \<le> 8
   \<and> position (run_reads (reader_set 7 8 Buf Memcpy) [1, 2, 3, 4, 5, 6, 7, 8, 9]
        [(1, Some [0], False), (1, Some [0], False)]) \<le> 8
   \<and> position (fst (run_writes (writer_set 7 8 Buf Memcpy, [1, 2, 3, 4, 5, 6, 7, 8, 9])
        [(1, Some [0xaa]), (1, Some [0xbb])])) \<le> 8
   \<and> read_and_advance (reader_set 7 8 Buf Memcpy) [1, 2, 3, 4, 5, 6, 7, 8, 9]
        4 (Some [0, 0, 0, 0]) False = (Some [0, 0, 0, 0], reader_set 7 8 Buf Memcpy)
   \<and> write_and_advance (writer_set 7 8 Buf Memcpy) [1, 2, 3, 4, 5, 6, 7, 8, 9]
        4 (Some [0, 0, 0, 0]) = (writer_set 7 8 Buf Memcpy, [1, 2, 3, 4, 5, 6, 7, 8, 9])
   \<and> drop 8 (snd (run_writes (writer_set 7 8 Buf Memcpy, [1, 2, 3, 4, 5, 6, 7, 8, 9])
        [(1, Some [0xaa]), (1, Some [0xbb])])) = [9]"
proof -
  let ?r = "reader_set 7 8 Buf Memcpy"
  let ?w = "writer_set 7 8 Buf Memcpy"
  have h: "position ?r \<le> stream_size ?r" "position ?w \<le> stream_size ?w"
    by (simp_all add: reader_set_def writer_set_def)
  have e: "stream_size ?r = 8" "stream_size ?w = 8" "position ?r = 7" "position ?w = 7"
    by (simp_all add: reader_set_def writer_set_def)
  from position_never_exceeds_stream_size [OF h, of "[1, 2, 3, 4, 5, 6, 7, 8, 9]" 4
      "Some [0, 0, 0, 0]" False "Some [0, 0, 0, 0]"
      "[(1, Some [0], False), (1, Some [0], False)]" "[(1, Some [0xaa]), (1, Some [0xbb])]"]
  show ?thesis unfolding e by (simp add: e)
qed

text \<open>
  C9. After every rejected read, and so after every read from an exhausted stream, the
  destination of the read is zero-filled: the typed reads return 0, also for every later
  read once the stream is exhausted.

  As stated this fails for \<^verbatim>\<open>StreamReader::read\<close>: a rejected read returns before the
  destination is touched, so the caller's bytes stay as they were, zero or not. The
  typed reads return 0 because \<^verbatim>\<open>_read_pod\<close> zero-initialises its own destination. The
  theorem below is the claim as the code has it: a rejected typed read returns 0 and
  leaves the stream as it was; on an exhausted stream every typed read returns 0 and
  every sequence of reads leaves the stream as it was; a rejected \<^verbatim>\<open>read\<close> returns the
  destination unchanged.
\<close>

theorem rejected_typed_read_returns_zero:
  fixes r :: StreamReader
  shows "(count = (of_nat (LENGTH('a::len) div 8) :: mp_u32)
          \<and> (count = 0 \<or> stream_size r \<le> count
              \<or> unat (stream_size r) < unat (position r) + unat count
              \<or> reader r = NullFn \<or> buffer r = Null)
          \<longrightarrow> (read_pod r mem peek :: 'a word \<times> StreamReader) = (0, r))
       \<and> (stream_size r \<le> position r
          \<longrightarrow> (read_pod r mem peek :: 'a word \<times> StreamReader) = (0, r)
              \<and> run_reads r mem ops = r)
       \<and> (n = 0 \<or> dst = None \<or> stream_size r \<le> n
              \<or> unat (stream_size r) < unat (position r) + unat n
              \<or> reader r = NullFn \<or> buffer r = Null
          \<longrightarrow> sr_read r mem n dst = (dst, r))"
proof -
  have a: "stream_size r \<le> position r
      \<Longrightarrow> (read_pod r mem peek :: 'a word \<times> StreamReader) = (0, r)"
    unfolding read_pod_def Let_def
    by (simp add: exhausted_rejects deref_def of_le_zero)
  show ?thesis
    using a by (auto simp: read_pod_rejected exhausted_run_reads sr_read_def read_guard_rejects)
qed

theorem rejected_typed_read_returns_zero_witness:
  "(read_pod (reader_set 8 8 Buf Memcpy) [1, 2, 3, 4, 5, 6, 7, 8] False
      :: mp_u16 \<times> StreamReader) = (0, reader_set 8 8 Buf Memcpy)
   \<and> run_reads (reader_set 8 8 Buf Memcpy) [1, 2, 3, 4, 5, 6, 7, 8]
        [(1, Some [0xff], False), (2, Some [0, 0], True)] = reader_set 8 8 Buf Memcpy
   \<and> sr_read (reader_set 8 8 Buf Memcpy) [1, 2, 3, 4, 5, 6, 7, 8] 1 (Some [0xff])
        = (Some [0xff], reader_set 8 8 Buf Memcpy)"
  using rejected_typed_read_returns_zero [where 'a = 16, of 2 "reader_set 8 8 Buf Memcpy"
      "[1, 2, 3, 4, 5, 6, 7, 8]" False "[(1, Some [0xff], False), (2, Some [0, 0], True)]"
      1 "Some [0xff]"]
  by (simp add: reader_set_def)

theorem rejected_raw_read_keeps_destination:
  "\<not> zero_filled (deref (fst (sr_read (reader_set 8 8 Buf Memcpy) [1, 2, 3, 4, 5, 6, 7, 8]
       1 (Some [0xff]))))"
  by code_simp

text \<open>
  C10. When the stream holds, at the read position, the tag of a variable-length header
  (Str8/16/32, Bin8/16/32, Ext8/16/32, Array16/32, Map16/32) followed by a length or
  count field of 1, 2 or 4 zero bytes, \<^verbatim>\<open>decode_single\<close> does not return that tag with
  size 0: the switch computes the size 0, the tag is not a fixed extension, so the byte
  enters the compact-range resolution and the result is FixMap with size \<^verbatim>\<open>tag & 0x0F\<close>.
  A Str8 of length 0 (the bytes D9 00) is FixMap with size 9.
\<close>

theorem zero_length_header_decodes_as_fixmap:
  fixes m :: MessagePack
  assumes "reader (sr m) = Memcpy" and "buffer (sr m) = Buf"
    and "(raw = Str8 \<or> raw = Bin8 \<or> raw = Ext8) \<and> k = 1
       \<or> (raw = Str16 \<or> raw = Bin16 \<or> raw = Ext16 \<or> raw = Array16 \<or> raw = Map16) \<and> k = 2
       \<or> (raw = Str32 \<or> raw = Bin32 \<or> raw = Ext32 \<or> raw = Array32 \<or> raw = Map32) \<and> k = 4"
    and "unat (position (sr m)) + 1 + k \<le> unat (stream_size (sr m))"
    and "fetch (unat (position (sr m))) (Suc k) mem = raw # replicate k 0"
  shows "marker (fst (decode_single (m, mem))) = FixMap
       \<and> size_dr (fst (decode_single (m, mem))) = ucast (raw AND 0x0F)
       \<and> marker (fst (decode_single (m, mem))) \<noteq> raw"
proof -
  let ?st1 = "(m\<lparr>sr := (sr m)\<lparr>position := position (sr m) + 1\<rparr>\<rparr>, mem)"
  have tag: "raw \<in> {Str8, Bin8, Str16, Bin16, Str32, Bin32, Ext8, Ext16, Ext32,
                 Array16, Map16, Array32, Map32}"
    using assms(3) by auto
  have rd: "read_u8 (m, mem) = (raw, ?st1)
      \<and> size_dr (fst (decode_switch (decode_init raw) ?st1)) = 0"
  proof -
    consider
      (b1) "(raw = Str8 \<or> raw = Bin8 \<or> raw = Ext8) \<and> k = 1"
      | (b2) "(raw = Str16 \<or> raw = Bin16 \<or> raw = Ext16 \<or> raw = Array16 \<or> raw = Map16) \<and> k = 2"
      | (b4) "(raw = Str32 \<or> raw = Bin32 \<or> raw = Ext32 \<or> raw = Array32 \<or> raw = Map32) \<and> k = 4"
      using assms(3) by blast
    then show ?thesis
    proof cases
      case b1
      then have k: "k = 1" by simp
      from tag_then_field_read [where 'a = 8 and c = 1 and k = k and bytes = "replicate k 0",
          OF assms(1) assms(2) _ _ _ _ assms(4) _ assms(5)]
      have r: "read_u8 (m, mem) = (raw, ?st1)"
        and v: "fst (on_sr (\<lambda>s mm. (read_pod s mm False :: mp_u8 \<times> StreamReader)) ?st1)
              = of_le (replicate k 0)"
        by (simp_all add: k)
      have "fst (read_u8 ?st1) = 0"
        using v by (simp add: read_u8_def sr_read_u8_def on_sr_def of_le_zero)
      from switch_size_8 [OF _ this, of raw] b1 r show ?thesis by simp
    next
      case b2
      then have k: "k = 2" by simp
      from tag_then_field_read [where 'a = 16 and c = 2 and k = k and bytes = "replicate k 0",
          OF assms(1) assms(2) _ _ _ _ assms(4) _ assms(5)]
      have r: "read_u8 (m, mem) = (raw, ?st1)"
        and v: "fst (on_sr (\<lambda>s mm. (read_pod s mm False :: mp_u16 \<times> StreamReader)) ?st1)
              = of_le (replicate k 0)"
        by (simp_all add: k)
      have z: "fst (on_sr sr_read_u16 ?st1) = 0"
        using v by (simp add: sr_read_u16_def on_sr_def of_le_zero)
      from b2 consider "raw = Str16 \<or> raw = Bin16 \<or> raw = Ext16" | "raw = Array16 \<or> raw = Map16"
        by blast
      then have "size_dr (fst (decode_switch (decode_init raw) ?st1)) = 0"
      proof cases
        case 1
        from switch_size_16_swapped [OF 1 z] show ?thesis by (simp add: bswap_zero)
      next
        case 2
        from switch_size_16_host [OF 2 z] show ?thesis by simp
      qed
      with r show ?thesis by simp
    next
      case b4
      then have k: "k = 4" by simp
      from tag_then_field_read [where 'a = 32 and c = 4 and k = k and bytes = "replicate k 0",
          OF assms(1) assms(2) _ _ _ _ assms(4) _ assms(5)]
      have r: "read_u8 (m, mem) = (raw, ?st1)"
        and v: "fst (on_sr (\<lambda>s mm. (read_pod s mm False :: mp_u32 \<times> StreamReader)) ?st1)
              = of_le (replicate k 0)"
        by (simp_all add: k)
      have z: "fst (on_sr sr_read_u32 ?st1) = 0"
        using v by (simp add: sr_read_u32_def on_sr_def of_le_zero)
      from b4 consider "raw = Str32 \<or> raw = Bin32 \<or> raw = Ext32" | "raw = Array32 \<or> raw = Map32"
        by blast
      then have "size_dr (fst (decode_switch (decode_init raw) ?st1)) = 0"
      proof cases
        case 1
        from switch_size_32_swapped [OF 1 z] show ?thesis by (simp add: bswap_zero)
      next
        case 2
        from switch_size_32_host [OF 2 z] show ?thesis by simp
      qed
      with r show ?thesis by simp
    qed
  qed
  from rd have a: "fst (read_u8 (m, mem)) = raw"
    and c: "size_dr (fst (decode_switch (decode_init raw) (snd (read_u8 (m, mem))))) = 0"
    by simp_all
  from zero_size_after_switch_decodes_as_fixmap [OF a tag c] show ?thesis .
qed

theorem zero_length_header_decodes_as_fixmap_witness:
  "take 2 (snd (write_raw_value 0 0 Str8 None (fresh 16))) = [0xd9, 0x00]
   \<and> marker (fst (decode_single (write_raw_value 0 0 Str8 None (fresh 16)))) = FixMap
   \<and> size_dr (fst (decode_single (write_raw_value 0 0 Str8 None (fresh 16)))) = 9
   \<and> marker (fst (decode_single (initialize_streams 0 8 Buf Memcpy Memcpy,
        [0xdd, 0, 0, 0, 0, 0x2a, 0, 0]))) = FixMap
   \<and> size_dr (fst (decode_single (initialize_streams 0 8 Buf Memcpy Memcpy,
        [0xdd, 0, 0, 0, 0, 0x2a, 0, 0]))) = 13"
proof -
  let ?st = "write_raw_value 0 0 Str8 None (fresh 16)"
  have s: "(fst ?st, snd ?st) = ?st" by simp
  have a: "reader (sr (fst ?st)) = Memcpy" "buffer (sr (fst ?st)) = Buf" by code_simp+
  have b: "(Str8 = Str8 \<or> Str8 = Bin8 \<or> Str8 = Ext8) \<and> (1 :: nat) = 1
       \<or> (Str8 = Str16 \<or> Str8 = Bin16 \<or> Str8 = Ext16 \<or> Str8 = Array16 \<or> Str8 = Map16) \<and> (1 :: nat) = 2
       \<or> (Str8 = Str32 \<or> Str8 = Bin32 \<or> Str8 = Ext32 \<or> Str8 = Array32 \<or> Str8 = Map32) \<and> (1 :: nat) = 4"
    by simp
  have c: "unat (position (sr (fst ?st))) + 1 + 1 \<le> unat (stream_size (sr (fst ?st)))"
    by code_simp
  have d: "fetch (unat (position (sr (fst ?st)))) (Suc 1) (snd ?st) = Str8 # replicate 1 0"
    by code_simp
  have e: "take 2 (snd ?st) = [0xd9, 0x00]" by code_simp
  let ?m = "initialize_streams 0 8 Buf Memcpy Memcpy"
  let ?mem = "[0xdd, 0, 0, 0, 0, 0x2a, 0, 0] :: mp_u8 list"
  have a': "reader (sr ?m) = Memcpy" "buffer (sr ?m) = Buf"
    by (simp_all add: initialize_streams_def reader_set_def)
  have b': "(Array32 = Str8 \<or> Array32 = Bin8 \<or> Array32 = Ext8) \<and> (4 :: nat) = 1
       \<or> (Array32 = Str16 \<or> Array32 = Bin16 \<or> Array32 = Ext16 \<or> Array32 = Array16
            \<or> Array32 = Map16) \<and> (4 :: nat) = 2
       \<or> (Array32 = Str32 \<or> Array32 = Bin32 \<or> Array32 = Ext32 \<or> Array32 = Array32
            \<or> Array32 = Map32) \<and> (4 :: nat) = 4"
    by simp
  have c': "unat (position (sr ?m)) + 1 + 4 \<le> unat (stream_size (sr ?m))"
    by (simp add: initialize_streams_def reader_set_def)
  have d': "fetch (unat (position (sr ?m))) (Suc 4) ?mem = Array32 # replicate 4 0"
    by code_simp
  from zero_length_header_decodes_as_fixmap [OF a b c d]
    zero_length_header_decodes_as_fixmap [OF a' b' c' d'] e
  show ?thesis unfolding s by (simp add: Str8_def Array32_def)
qed

end
